theory Spec2Isabelle
  imports Main "HOL-Library.Word" "HOL-Library.Sublist"
begin

unbundle bit_operations_syntax

section \<open>AfroBase image server: a shallow embedding of \<open>main.go\<close>\<close>

text \<open>
  Go strings and byte slices are sequences of bytes. A \<open>string\<close> of HOL is a list of
  \<open>char\<close>, and a \<open>char\<close> is one byte, so \<open>length\<close> is Go's \<open>len\<close> and
  \<open>take n\<close> is Go's \<open>s[:n]\<close> for \<open>n \<le> len(s)\<close>. The decoded image is a list of
  8-bit words.
\<close>

type_synonym byte = "8 word"

subsection \<open>The filename sanitizer\<close>

text \<open>
  \<open>strings.ReplaceAll(s, old, new)\<close> of the Go library replaces every non-overlapping
  occurrence of \<open>old\<close>, scanning from the left. The program only calls it with a one-byte
  \<open>old\<close>; for the empty \<open>old\<close> (where Go inserts \<open>new\<close> around every code point)
  the model returns \<open>s\<close> and is not meant to be used.
\<close>

function ReplaceAll :: "string \<Rightarrow> string \<Rightarrow> string \<Rightarrow> string" where
  "ReplaceAll [] old new = []"
| "ReplaceAll (c # cs) old new =
     (if old \<noteq> [] \<and> prefix old (c # cs)
      then new @ ReplaceAll (drop (length old) (c # cs)) old new
      else c # ReplaceAll cs old new)"
  by pat_completeness auto
termination
  by (relation "measure (\<lambda>(s, old, new). length s)") (auto simp: neq_Nil_conv)

definition sanitizeFilename :: "string \<Rightarrow> string" where
  "sanitizeFilename filename0 =
     (let filename = ReplaceAll filename0 '' '' ''_'';
          filename = ReplaceAll filename ''/'' ''-'';
          filename = ReplaceAll filename [CHR 0x5C] ''-'';
          filename = ReplaceAll filename '':'' ''-'';
          filename = ReplaceAll filename ''*'' ''-'';
          filename = ReplaceAll filename ''?'' ''-'';
          filename = ReplaceAll filename [CHR 0x22] ''-'';
          filename = ReplaceAll filename ''<'' ''-'';
          filename = ReplaceAll filename ''>'' ''-'';
          filename = ReplaceAll filename ''|'' ''-''
      in if length filename > 50 then take 50 filename else filename)"

text \<open>
  The specification's description of the sanitizer, for comparison with the code: the ten
  forbidden characters, and what one byte is replaced by.
\<close>

definition spec_forbidden :: "char set" where
  "spec_forbidden = {CHR '' '', CHR ''/'', CHR 0x5C, CHR '':'', CHR ''*'', CHR ''?'',
                CHR 0x22, CHR ''<'', CHR ''>'', CHR ''|''}"

definition spec_replacement :: "char \<Rightarrow> char" where
  "spec_replacement c =
     (if c = CHR '' '' then CHR ''_''
      else if c \<in> spec_forbidden then CHR ''-''
      else c)"

subsection \<open>The content sniffer\<close>

text \<open>
  The \<open>switch\<close> of \<open>handleImageUpload\<close> that picks \<open>fileExt\<close> from the first bytes
  of the decoded image. The indexed reads are guarded by the length test, as in the source.
\<close>

definition fileExt :: "byte list \<Rightarrow> string" where
  "fileExt imageData =
     (if length imageData \<ge> 4 then
        (if imageData ! 0 = 0xFF \<and> imageData ! 1 = 0xD8 then ''.jpg''
         else if imageData ! 0 = 0x89 \<and> imageData ! 1 = 0x50
                 \<and> imageData ! 2 = 0x4E \<and> imageData ! 3 = 0x47 then ''.png''
         else if imageData ! 0 = 0x47 \<and> imageData ! 1 = 0x49
                 \<and> imageData ! 2 = 0x46 then ''.gif''
         else if imageData ! 0 = 0x52 \<and> imageData ! 1 = 0x49
                 \<and> imageData ! 2 = 0x46 \<and> imageData ! 3 = 0x46 then ''.webp''
         else ''.jpg'')
      else ''.jpg'')"

subsection \<open>Library functions the handlers call\<close>

datatype error =
    BodyParserError      \<comment> \<open>\<open>c.BodyParser\<close> could not read the body\<close>
  | CorruptInputError    \<comment> \<open>\<open>base64.CorruptInputError\<close>; its offset is only logged\<close>
  | WriteFileError       \<comment> \<open>\<open>ioutil.WriteFile\<close> failed\<close>
  | ReadDirError         \<comment> \<open>\<open>ioutil.ReadDir\<close> failed\<close>
  | StatError            \<comment> \<open>\<open>os.Stat\<close> failed\<close>

subsubsection \<open>\<open>base64.StdEncoding.DecodeString\<close>\<close>

text \<open>
  The standard alphabet of RFC 4648 with \<open>=\<close> padding, not strict: the decoding table
  gives the 6-bit value of a character of the alphabet and \<open>0xFF\<close> for every other byte.
\<close>

definition decodeMap :: "char \<Rightarrow> byte" where
  "decodeMap c =
     (let n = (of_char c :: nat) in
      if 65 \<le> n \<and> n \<le> 90 then of_nat (n - 65)
      else if 97 \<le> n \<and> n \<le> 122 then of_nat (n - 71)
      else if 48 \<le> n \<and> n \<le> 57 then of_nat (n + 4)
      else if n = 43 then 62
      else if n = 47 then 63
      else 0xFF)"

definition isNewline :: "char \<Rightarrow> bool" where
  "isNewline c \<longleftrightarrow> c = CHR 0x0A \<or> c = CHR 0x0D"

text \<open>
  The end of \<open>decodeQuantum\<close>: \<open>dbuf\<close> holds the \<open>dlen\<close> values read (2, 3 or 4 of
  them, the rest zero); they are packed into 24 bits and the first \<open>dlen - 1\<close> bytes are
  written.
\<close>

definition quantum :: "byte list \<Rightarrow> byte list" where
  "quantum dbuf =
     (let d = dbuf @ replicate (4 - length dbuf) 0;
          val = push_bit 18 (ucast (d ! 0) :: 64 word) OR push_bit 12 (ucast (d ! 1))
                OR push_bit 6 (ucast (d ! 2)) OR ucast (d ! 3)
      in take (length dbuf - 1)
           [ucast (drop_bit 16 val), ucast (drop_bit 8 val), ucast val])"

text \<open>
  After the padding of the last quantum only newlines may follow; anything else is the
  library's "trailing garbage" error.
\<close>

definition finishPadding :: "byte list \<Rightarrow> byte list \<Rightarrow> string \<Rightarrow> error + byte list" where
  "finishPadding dst dbuf src =
     (if dropWhile isNewline src \<noteq> [] then Inl CorruptInputError
      else Inr (dst @ quantum dbuf))"

text \<open>
  \<open>Decode\<close> is a loop of \<open>decodeQuantum\<close>: \<open>dst\<close> is the output so far, \<open>dbuf\<close> the
  values of the current quantum (fewer than four), \<open>src\<close> the input still to read.
  Newlines are skipped; the input may end only between quanta; \<open>=\<close> is accepted only
  as the third and fourth or as the fourth character of the last quantum.
\<close>

fun decode :: "byte list \<Rightarrow> byte list \<Rightarrow> string \<Rightarrow> error + byte list" where
  "decode dst dbuf [] = (if dbuf = [] then Inr dst else Inl CorruptInputError)"
| "decode dst dbuf (c # src) =
     (if decodeMap c \<noteq> 0xFF then
        (if length dbuf = 3 then decode (dst @ quantum (dbuf @ [decodeMap c])) [] src
         else decode dst (dbuf @ [decodeMap c]) src)
      else if isNewline c then decode dst dbuf src
      else if c \<noteq> CHR ''='' then Inl CorruptInputError
      else if length dbuf < 2 then Inl CorruptInputError
      else if length dbuf = 2 then
        (case dropWhile isNewline src of
           [] \<Rightarrow> Inl CorruptInputError
         | d # rest \<Rightarrow>
             if d \<noteq> CHR ''='' then Inl CorruptInputError
             else finishPadding dst dbuf rest)
      else finishPadding dst dbuf src)"

definition DecodeString :: "string \<Rightarrow> error + byte list" where
  "DecodeString s = decode [] [] s"

subsubsection \<open>\<open>fmt.Sprintf("%d", n)\<close>\<close>

text \<open>Decimal formatting, a digit at a time; \<open>digit\<close> is only used below 10.\<close>

definition digit :: "nat \<Rightarrow> char" where
  "digit d = ''0123456789'' ! d"

function formatUint :: "nat \<Rightarrow> string" where
  "formatUint n = (if n < 10 then [digit n] else formatUint (n div 10) @ [digit (n mod 10)])"
  by pat_completeness auto
termination
  by (relation "measure id") auto

declare formatUint.simps [simp del]

definition formatInt :: "int \<Rightarrow> string" where
  "formatInt i = (if i < 0 then CHR ''-'' # formatUint (nat (- i)) else formatUint (nat i))"

subsubsection \<open>\<open>filepath.Join\<close>, \<open>filepath.Ext\<close> and \<open>strings.TrimSuffix\<close> (Unix)\<close>

text \<open>The elements of a path between its separators.\<close>

fun splitSep :: "string \<Rightarrow> string list" where
  "splitSep [] = [Nil]"
| "splitSep (c # cs) =
     (if c = CHR ''/'' then [] # splitSep cs
      else (c # hd (splitSep cs)) # tl (splitSep cs))"

text \<open>
  \<open>filepath.Clean\<close>, element by element: empty elements and \<open>.\<close> are dropped, \<open>..\<close>
  removes the element before it when there is one to remove, is dropped at the root and
  kept at the start of a relative path. \<open>out\<close> is the cleaned path so far, last element
  first.
\<close>

fun cleanElems :: "bool \<Rightarrow> string list \<Rightarrow> string list \<Rightarrow> string list" where
  "cleanElems rooted out [] = rev out"
| "cleanElems rooted out (e # es) =
     (if e = [] \<or> e = ''.'' then cleanElems rooted out es
      else if e = ''..'' then
        (if out \<noteq> [] \<and> hd out \<noteq> ''..'' then cleanElems rooted (tl out) es
         else if \<not> rooted then cleanElems rooted (''..'' # out) es
         else cleanElems rooted out es)
      else cleanElems rooted (e # out) es)"

fun joinSep :: "string list \<Rightarrow> string" where
  "joinSep [] = []"
| "joinSep [e] = e"
| "joinSep (e # es) = e @ CHR ''/'' # joinSep es"

definition Clean :: "string \<Rightarrow> string" where
  "Clean path =
     (if path = [] then ''.''
      else let rooted = (hd path = CHR ''/'');
               out = (if rooted then ''/'' else []) @ joinSep (cleanElems rooted [] (splitSep path))
           in if out = [] then ''.'' else out)"

text \<open>\<open>filepath.Join\<close> of two elements, the first not empty.\<close>

definition Join :: "string \<Rightarrow> string \<Rightarrow> string" where
  "Join dir name = Clean (dir @ CHR ''/'' # name)"

text \<open>
  \<open>filepath.Ext\<close> scans from the end of the path, stops at a separator, and returns the
  suffix that starts at the first dot it meets. \<open>r\<close> is the path still to scan, reversed;
  \<open>acc\<close> is the part already scanned.
\<close>

fun extScan :: "string \<Rightarrow> string \<Rightarrow> string" where
  "extScan [] acc = []"
| "extScan (c # r) acc =
     (if c = CHR ''/'' then []
      else if c = CHR ''.'' then c # acc
      else extScan r (c # acc))"

definition Ext :: "string \<Rightarrow> string" where
  "Ext path = extScan (rev path) []"

definition TrimSuffix :: "string \<Rightarrow> string \<Rightarrow> string" where
  "TrimSuffix s suf = (if suffix suf s then take (length s - length suf) s else s)"

subsubsection \<open>\<open>unicode/utf8\<close> and the strings of \<open>encoding/json\<close>\<close>

text \<open>
  \<open>utf8.DecodeRuneInString\<close> reads the first byte in a table that gives the length of
  the encoding it starts and the range its second byte must lie in; length 1 is ASCII,
  length 0 stands for the table's invalid entry.
\<close>

definition utf8_first :: "nat \<Rightarrow> nat \<times> nat \<times> nat" where
  "utf8_first x =
     (if x < 0x80 then (1, 0, 0)
      else if x < 0xC2 then (0, 0, 0)
      else if x < 0xE0 then (2, 0x80, 0xBF)
      else if x = 0xE0 then (3, 0xA0, 0xBF)
      else if x = 0xED then (3, 0x80, 0x9F)
      else if x < 0xF0 then (3, 0x80, 0xBF)
      else if x = 0xF0 then (4, 0x90, 0xBF)
      else if x < 0xF4 then (4, 0x80, 0xBF)
      else if x = 0xF4 then (4, 0x80, 0x8F)
      else (0, 0, 0))"

definition acceptRange :: "nat \<Rightarrow> nat \<Rightarrow> char \<Rightarrow> bool" where
  "acceptRange lo hi b \<longleftrightarrow> lo \<le> (of_char b :: nat) \<and> (of_char b :: nat) \<le> hi"

text \<open>
  The number of bytes of the character at the start of \<open>s\<close>, or 0 where
  \<open>DecodeRuneInString\<close> returns \<open>(RuneError, 1)\<close>: an invalid first byte, an encoding
  cut short, or a following byte out of range. The indexed reads come after the length
  test, as in the library.
\<close>

definition runeLen :: "string \<Rightarrow> nat" where
  "runeLen s =
     (if s = [] then 0
      else case utf8_first (of_char (s ! 0)) of
        (sz, lo, hi) \<Rightarrow>
          if sz \<le> 1 then sz
          else if length s < sz then 0
          else if \<not> acceptRange lo hi (s ! 1) then 0
          else if sz \<le> 2 then 2
          else if \<not> acceptRange 0x80 0xBF (s ! 2) then 0
          else if sz \<le> 3 then 3
          else if \<not> acceptRange 0x80 0xBF (s ! 3) then 0
          else 4)"

text \<open>
  \<open>json.Marshal\<close> writes a string character by character and writes U+FFFD (the bytes
  \<open>EF BF BD\<close>) for every byte at which decoding fails. \<open>toValidUTF8 s\<close> is the string
  a client reads back from the response.
\<close>

function toValidUTF8 :: "string \<Rightarrow> string" where
  "toValidUTF8 [] = []"
| "toValidUTF8 (c # cs) =
     (if runeLen (c # cs) = 0 then [CHR 0xEF, CHR 0xBF, CHR 0xBD] @ toValidUTF8 cs
      else take (runeLen (c # cs)) (c # cs) @ toValidUTF8 (drop (runeLen (c # cs)) (c # cs)))"
  by pat_completeness auto
termination
  by (relation "measure length") auto

text \<open>\<open>utf8.ValidString\<close>: every character decodes.\<close>

function ValidString :: "string \<Rightarrow> bool" where
  "ValidString [] \<longleftrightarrow> True"
| "ValidString (c # cs) \<longleftrightarrow>
     (if runeLen (c # cs) = 0 then False
      else ValidString (drop (runeLen (c # cs)) (c # cs)))"
  by pat_completeness auto
termination
  by (relation "measure length") auto

declare toValidUTF8.simps(2) [simp del] ValidString.simps(2) [simp del]

subsection \<open>Requests, responses and the world outside the handlers\<close>

record ImagePayload =
  Title :: string
  Description :: string
  Image :: string

text \<open>
  The values \<open>c.JSON\<close> serialises. A \<open>fiber.Map\<close> is written as the list of its
  keys and values in the order of the source text (the order of the members of a JSON
  object carries no meaning); \<open>field\<close> looks a key up.
\<close>

datatype json =
    JString string
  | JNumber int
  | JBool bool
  | JArray "json list"
  | JObject "(string \<times> json) list"

fun field :: "string \<Rightarrow> json \<Rightarrow> json option" where
  "field k (JObject kvs) = map_of kvs k"
| "field k _ = None"

record response =
  status :: nat
  body :: json

text \<open>
  \<open>c.JSON(v)\<close> marshals \<open>v\<close> with \<open>json.Marshal\<close> and sends the text. The body of
  a response is the JSON value that text denotes, the value a client decodes: numbers,
  booleans and the structure are those of \<open>v\<close>, and every string, keys included, has
  gone through \<open>toValidUTF8\<close>. (The escapes the marshaller writes for \<open><\<close>, \<open>>\<close>
  and \<open>&\<close> denote the same characters.)
\<close>

primrec marshal :: "json \<Rightarrow> json" where
  "marshal (JString s) = JString (toValidUTF8 s)"
| "marshal (JNumber n) = JNumber n"
| "marshal (JBool b) = JBool b"
| "marshal (JArray vs) = JArray (map marshal vs)"
| "marshal (JObject kvs) = JObject (map (map_prod toValidUTF8 marshal) kvs)"

text \<open>\<open>c.JSON(v)\<close> answers with the default status 200, \<open>c.Status(n).JSON(v)\<close> with \<open>n\<close>.\<close>

definition JSON :: "json \<Rightarrow> response" where
  "JSON v = \<lparr>status = 200, body = marshal v\<rparr>"

definition Status_JSON :: "nat \<Rightarrow> json \<Rightarrow> response" where
  "Status_JSON n v = \<lparr>status = n, body = marshal v\<rparr>"

text \<open>
  What the operating system answers is a parameter of the model: the clock, whether a
  write succeeds, the entries \<open>ioutil.ReadDir("./uploads")\<close> returns and what
  \<open>os.Stat\<close> says of a path. \<open>ioutil.WriteFile\<close> opens the file (creating or truncating
  it) and then writes, so a failed write either leaves the file alone or leaves the first
  bytes of the data.
\<close>

record fileInfo =
  Size :: int
  ModTime :: int    \<comment> \<open>\<open>ModTime().Unix()\<close>\<close>

record dirEntry =
  Name :: string
  IsDir :: bool

datatype write_outcome = Written | OpenFailed | WriteFailed nat

record env =
  now :: int    \<comment> \<open>\<open>time.Now().Unix()\<close>\<close>
  os_write :: "string \<Rightarrow> byte list \<Rightarrow> write_outcome"
  os_ReadDir :: "error + dirEntry list"
  os_Stat :: "string \<Rightarrow> error + fileInfo"

text \<open>
  What the handlers change: the files on disk (path to contents) and the server log. A
  log line is kept as the format string of \<open>log.Printf\<close> and its arguments.
\<close>

datatype log_arg = S string | E error

record state =
  disk :: "string \<rightharpoonup> byte list"
  logs :: "(string \<times> log_arg list) list"

definition Printf :: "string \<Rightarrow> log_arg list \<Rightarrow> state \<Rightarrow> state" where
  "Printf fmt args s = s\<lparr>logs := logs s @ [(fmt, args)]\<rparr>"

definition WriteFile :: "env \<Rightarrow> string \<Rightarrow> byte list \<Rightarrow> state \<Rightarrow> error option \<times> state" where
  "WriteFile ev path data s =
     (case os_write ev path data of
        Written \<Rightarrow> (None, s\<lparr>disk := (disk s)(path \<mapsto> data)\<rparr>)
      | OpenFailed \<Rightarrow> (Some WriteFileError, s)
      | WriteFailed k \<Rightarrow> (Some WriteFileError, s\<lparr>disk := (disk s)(path \<mapsto> take k data)\<rparr>))"

subsection \<open>The upload handler\<close>

text \<open>
  \<open>handleImageUpload\<close>, given what \<open>c.BodyParser(&payload)\<close> returned. The result is
  the response and the state after the request.
\<close>

definition handleImageUpload ::
  "env \<Rightarrow> error + ImagePayload \<Rightarrow> state \<Rightarrow> response \<times> state" where
  "handleImageUpload ev parsed s =
     (case parsed of
        Inl err \<Rightarrow>
          (Status_JSON 400 (JObject [(''error'', JString ''Invalid request body''),
                                     (''success'', JBool False)]),
           Printf ''Error parsing request body: %v'' [E err] s)
      | Inr payload \<Rightarrow>
          if Image payload = [] then
            (Status_JSON 400 (JObject [(''error'', JString ''Image data is required''),
                                       (''success'', JBool False)]), s)
          else
            (case DecodeString (Image payload) of
               Inl err \<Rightarrow>
                 (Status_JSON 400 (JObject [(''error'', JString ''Invalid base64 image data''),
                                            (''success'', JBool False)]),
                  Printf ''Error decoding base64 image: %v'' [E err] s)
             | Inr imageData \<Rightarrow>
                 (let timestamp = now ev;
                      sanitizedTitle = sanitizeFilename (Title payload);
                      sanitizedTitle = (if sanitizedTitle = [] then ''image'' else sanitizedTitle);
                      filename = formatInt timestamp @ ''_'' @ sanitizedTitle @ fileExt imageData;
                      filepath = Join ''./uploads'' filename
                  in case WriteFile ev filepath imageData s of
                       (Some err, s') \<Rightarrow>
                         (Status_JSON 500 (JObject [(''error'', JString ''Failed to save image''),
                                                    (''success'', JBool False)]),
                          Printf ''Error saving file: %v'' [E err] s')
                     | (None, s') \<Rightarrow>
                         (JSON (JObject [(''success'', JBool True),
                                         (''url'', JString (''/uploads/'' @ filename))]),
                          Printf ''Image uploaded successfully: %s (Title: %s, Description: %s)''
                            [S filename, S (Title payload), S (Description payload)] s'))))"

subsection \<open>The listing handler\<close>

text \<open>
  The loop of \<open>getImageList\<close> over the directory entries: \<open>images\<close> is the slice built
  so far. A directory is passed over; an entry whose \<open>os.Stat\<close> fails is logged and
  passed over (\<open>continue\<close>); every other entry appends one object.
\<close>

fun imagesLoop :: "env \<Rightarrow> dirEntry list \<Rightarrow> json list \<Rightarrow> state \<Rightarrow> json list \<times> state" where
  "imagesLoop ev [] images s = (images, s)"
| "imagesLoop ev (file # files) images s =
     (if \<not> IsDir file then
        (case os_Stat ev (Join ''./uploads'' (Name file)) of
           Inl err \<Rightarrow> imagesLoop ev files images (Printf ''Error getting file info: %v'' [E err] s)
         | Inr info \<Rightarrow>
             imagesLoop ev files
               (images @
                [JObject [(''name'', JString (Name file)),
                          (''size'', JNumber (Size info)),
                          (''upload_time'', JNumber (ModTime info)),
                          (''title'', JString (TrimSuffix (Name file) (Ext (Name file)))),
                          (''description'', JString ''Uploaded image''),
                          (''url'', JString (''http://localhost:5174/uploads/'' @ Name file))]])
               s)
      else imagesLoop ev files images s)"

definition getImageList :: "env \<Rightarrow> state \<Rightarrow> response \<times> state" where
  "getImageList ev s =
     (case os_ReadDir ev of
        Inl err \<Rightarrow>
          (Status_JSON 500 (JObject [(''error'', JString ''Failed to read uploads directory''),
                                     (''success'', JBool False)]),
           Printf ''Error reading uploads directory: %v'' [E err] s)
      | Inr files \<Rightarrow>
          (case imagesLoop ev files [] s of
             (images, s') \<Rightarrow>
               if length images = 0 then (JSON (JArray []), s')
               else (JSON (JArray images), s')))"

subsection \<open>Vocabulary of the statements\<close>

text \<open>
  An entry is listed when it is not a directory and \<open>os.Stat\<close> succeeds on its path.
\<close>

definition listed :: "env \<Rightarrow> dirEntry \<Rightarrow> bool" where
  "listed ev file \<longleftrightarrow>
     \<not> IsDir file \<and>
     (case os_Stat ev (Join ''./uploads'' (Name file)) of Inl err \<Rightarrow> False | Inr info \<Rightarrow> True)"

text \<open>
  The record of a listed entry, as a client reads it: its name, size, modification time
  and address. Strings arrive as \<open>json.Marshal\<close> writes them.
\<close>

definition record_of :: "env \<Rightarrow> dirEntry \<Rightarrow> json \<Rightarrow> bool" where
  "record_of ev file img \<longleftrightarrow>
     (case os_Stat ev (Join ''./uploads'' (Name file)) of
        Inl err \<Rightarrow> False
      | Inr info \<Rightarrow>
          field ''name'' img = Some (JString (toValidUTF8 (Name file)))
          \<and> field ''size'' img = Some (JNumber (Size info))
          \<and> field ''upload_time'' img = Some (JNumber (ModTime info))
          \<and> field ''url'' img =
              Some (JString (toValidUTF8 (''http://localhost:5174/uploads/'' @ Name file))))"

text \<open>
  A record is derived from the name of its entry when its description is the placeholder
  and, for a name that is valid UTF-8, its name is the entry's name and its title is that
  name without the name's \<open>filepath.Ext\<close>.
\<close>

definition derived_record :: "dirEntry \<Rightarrow> json \<Rightarrow> bool" where
  "derived_record file img \<longleftrightarrow>
     field ''description'' img = Some (JString ''Uploaded image'')
     \<and> (ValidString (Name file) \<longrightarrow>
          field ''name'' img = Some (JString (Name file))
          \<and> (case field ''title'' img of
                Some (JString t) \<Rightarrow> Name file = t @ Ext (Name file)
              | _ \<Rightarrow> False))"

text \<open>The number a decimal string denotes, for reading a formatted timestamp back.\<close>

definition parseUint :: "string \<Rightarrow> nat" where
  "parseUint s = foldl (\<lambda>n c. 10 * n + (of_char c - 48)) 0 s"

definition decimal_value :: "string \<Rightarrow> int" where
  "decimal_value s =
     (case s of
        [] \<Rightarrow> 0
      | c # r \<Rightarrow> if c = CHR ''-'' then - int (parseUint r) else int (parseUint s))"

text \<open>
  An environment and a state for the concrete instances: every write succeeds; the
  directory holds one uploaded image, one subdirectory and one entry (a dangling link,
  say) whose \<open>os.Stat\<close> fails.
\<close>

definition example_env :: env where
  "example_env =
     \<lparr>now = 1700000000,
      os_write = (\<lambda>path data. Written),
      os_ReadDir = Inr [\<lparr>Name = ''1700000000_My_Photo!.png'', IsDir = False\<rparr>,
                        \<lparr>Name = ''dangling'', IsDir = False\<rparr>,
                        \<lparr>Name = ''thumbs'', IsDir = True\<rparr>],
      os_Stat = (\<lambda>path. if path = ''uploads/1700000000_My_Photo!.png''
                         then Inr \<lparr>Size = 8, ModTime = 1700000000\<rparr>
                         else Inl StatError)\<rparr>"

definition example_state :: state where
  "example_state = \<lparr>disk = Map.empty, logs = []\<rparr>"

section \<open>Properties\<close>

subsection \<open>The sanitizer is a bytewise map followed by a cut\<close>

lemma ReplaceAll_single:
  "ReplaceAll s [a] [b] = map (\<lambda>c. if c = a then b else c) s"
  by (induction s) auto

lemma sanitizeFilename_map:
  "sanitizeFilename s = take 50 (map spec_replacement s)"
proof -
  have "(\<lambda>c. if c = CHR ''|'' then CHR ''-'' else c) \<circ> (\<lambda>c. if c = CHR ''>'' then CHR ''-'' else c)
      \<circ> (\<lambda>c. if c = CHR ''<'' then CHR ''-'' else c) \<circ> (\<lambda>c. if c = CHR 0x22 then CHR ''-'' else c)
      \<circ> (\<lambda>c. if c = CHR ''?'' then CHR ''-'' else c) \<circ> (\<lambda>c. if c = CHR ''*'' then CHR ''-'' else c)
      \<circ> (\<lambda>c. if c = CHR '':'' then CHR ''-'' else c) \<circ> (\<lambda>c. if c = CHR 0x5C then CHR ''-'' else c)
      \<circ> (\<lambda>c. if c = CHR ''/'' then CHR ''-'' else c) \<circ> (\<lambda>c. if c = CHR '' '' then CHR ''_'' else c)
      = spec_replacement"
    by (rule ext) (simp add: spec_replacement_def spec_forbidden_def)
  then have "map spec_replacement s =
      map (\<lambda>c. if c = CHR ''|'' then CHR ''-'' else c) (map (\<lambda>c. if c = CHR ''>'' then CHR ''-'' else c)
      (map (\<lambda>c. if c = CHR ''<'' then CHR ''-'' else c) (map (\<lambda>c. if c = CHR 0x22 then CHR ''-'' else c)
      (map (\<lambda>c. if c = CHR ''?'' then CHR ''-'' else c) (map (\<lambda>c. if c = CHR ''*'' then CHR ''-'' else c)
      (map (\<lambda>c. if c = CHR '':'' then CHR ''-'' else c) (map (\<lambda>c. if c = CHR 0x5C then CHR ''-'' else c)
      (map (\<lambda>c. if c = CHR ''/'' then CHR ''-'' else c) (map (\<lambda>c. if c = CHR '' '' then CHR ''_'' else c) s)))))))))"
    by (simp only: map_map comp_assoc)
  then show ?thesis
    by (simp only: sanitizeFilename_def Let_def ReplaceAll_single) simp
qed

lemma spec_replacement_not_forbidden: "spec_replacement c \<notin> spec_forbidden"
  by (simp add: spec_replacement_def spec_forbidden_def)

lemma sanitizeFilename_no_forbidden: "set (sanitizeFilename s) \<inter> spec_forbidden = {}"
proof -
  have "set (sanitizeFilename s) \<subseteq> spec_replacement ` set s"
    using set_take_subset [of 50 "map spec_replacement s"] by (simp add: sanitizeFilename_map)
  then show ?thesis
    using spec_replacement_not_forbidden by auto
qed

lemma sanitizeFilename_length: "length (sanitizeFilename s) = min (length s) 50"
  by (simp add: sanitizeFilename_map)

lemma sanitizeFilename_empty: "sanitizeFilename s = [] \<longleftrightarrow> s = []"
  by (simp add: sanitizeFilename_map)

text \<open>
  Claim C3. For every input string the sanitizer replaces each space by \<open>_\<close> and each of
  the nine other forbidden characters by \<open>-\<close>, leaves every other byte as it is, and keeps
  the first 50 bytes of the result. So the output contains none of the ten forbidden
  characters and is at most 50 bytes long. The sanitizer reads nothing but its argument:
  equal inputs give equal outputs.
\<close>

theorem sanitizer_replaces_and_truncates:
  "sanitizeFilename s = take 50 (map spec_replacement s)
   \<and> set (sanitizeFilename s) \<inter> spec_forbidden = {}
   \<and> length (sanitizeFilename s) \<le> 50
   \<and> (\<forall>t. t = s \<longrightarrow> sanitizeFilename t = sanitizeFilename s)"
  by (simp add: sanitizeFilename_no_forbidden sanitizeFilename_length sanitizeFilename_map [symmetric])

theorem sanitizer_replaces_and_truncates_witness:
  "sanitizeFilename ''My Photo: a/b?'' = ''My_Photo-_a-b-''
   \<and> set ''My_Photo-_a-b-'' \<inter> spec_forbidden = {}
   \<and> length (sanitizeFilename (replicate 60 CHR ''*'')) \<le> 50"
  using sanitizer_replaces_and_truncates [of "''My Photo: a/b?''"]
    sanitizer_replaces_and_truncates [of "replicate 60 CHR ''*''"]
  by (simp add: spec_replacement_def spec_forbidden_def)

subsection \<open>The sniffer\<close>

lemma prefix_nth4:
  "length d \<ge> 4 \<Longrightarrow> prefix [a, b, c, e] d \<longleftrightarrow> d ! 0 = a \<and> d ! 1 = b \<and> d ! 2 = c \<and> d ! 3 = e"
  by (cases d; cases "tl d"; cases "tl (tl d)"; cases "tl (tl (tl d))") auto

lemma prefix_nth3:
  "length d \<ge> 4 \<Longrightarrow> prefix [a, b, c] d \<longleftrightarrow> d ! 0 = a \<and> d ! 1 = b \<and> d ! 2 = c"
  by (cases d; cases "tl d"; cases "tl (tl d)") auto

lemma prefix_nth2:
  "length d \<ge> 4 \<Longrightarrow> prefix [a, b] d \<longleftrightarrow> d ! 0 = a \<and> d ! 1 = b"
  by (cases d; cases "tl d") auto

text \<open>
  Claim C2. For every decoded byte sequence the sniffer returns \<open>.jpg\<close> when the sequence
  has at least 4 bytes and starts \<open>FF D8\<close>, \<open>.png\<close> when it starts \<open>89 50 4E 47\<close>,
  \<open>.gif\<close> when it has at least 4 bytes and starts \<open>47 49 46\<close>, \<open>.webp\<close> when it starts
  \<open>52 49 46 46\<close>, and the default \<open>.jpg\<close> for every sequence shorter than 4 bytes or with
  none of these prefixes. It is total and its result is always one of the four extensions.
  The claim's last clause, the default for every sequence shorter than 4 bytes, covers the
  three bytes \<open>47 49 46\<close> on their own: the length test comes first for every format.
\<close>

theorem sniffer_classifies:
  "fileExt d =
     (if 4 \<le> length d \<and> prefix [0xFF, 0xD8] d then ''.jpg''
      else if 4 \<le> length d \<and> prefix [0x89, 0x50, 0x4E, 0x47] d then ''.png''
      else if 4 \<le> length d \<and> prefix [0x47, 0x49, 0x46] d then ''.gif''
      else if 4 \<le> length d \<and> prefix [0x52, 0x49, 0x46, 0x46] d then ''.webp''
      else ''.jpg'')
   \<and> fileExt d \<in> {''.jpg'', ''.png'', ''.gif'', ''.webp''}"
proof (cases "4 \<le> length d")
  case True
  then show ?thesis
    by (simp add: fileExt_def prefix_nth4 prefix_nth3 prefix_nth2)
next
  case False
  then show ?thesis
    by (simp add: fileExt_def)
qed

theorem sniffer_classifies_witness:
  "fileExt [0xFF, 0xD8, 0xFF, 0xE0] = ''.jpg''
   \<and> fileExt [0x89, 0x50, 0x4E, 0x47, 0x0D, 0x0A] = ''.png''
   \<and> fileExt [0x47, 0x49, 0x46, 0x38, 0x39] = ''.gif''
   \<and> fileExt [0x52, 0x49, 0x46, 0x46, 0x00] = ''.webp''
   \<and> fileExt [0x47, 0x49, 0x46] = ''.jpg''
   \<and> fileExt [0x00, 0x01, 0x02, 0x03] = ''.jpg''
   \<and> fileExt [] = ''.jpg''"
  using sniffer_classifies [of "[0xFF, 0xD8, 0xFF, 0xE0]"]
    sniffer_classifies [of "[0x89, 0x50, 0x4E, 0x47, 0x0D, 0x0A]"]
    sniffer_classifies [of "[0x47, 0x49, 0x46, 0x38, 0x39]"]
    sniffer_classifies [of "[0x52, 0x49, 0x46, 0x46, 0x00]"]
    sniffer_classifies [of "[0x47, 0x49, 0x46]"]
    sniffer_classifies [of "[0x00, 0x01, 0x02, 0x03]"]
    sniffer_classifies [of "[]"]
  by simp

text \<open>
  Claim C10. The sniffer's result depends only on the first 4 bytes: two byte sequences of
  length at least 4 that agree on their first 4 bytes get the same extension.
\<close>

theorem sniffer_first_four_bytes:
  "4 \<le> length a \<Longrightarrow> 4 \<le> length b \<Longrightarrow> take 4 a = take 4 b \<Longrightarrow> fileExt a = fileExt b"
proof -
  assume la: "4 \<le> length a" and lb: "4 \<le> length b" and eq: "take 4 a = take 4 b"
  have "a ! i = b ! i" if "i < 4" for i
    using that eq by (metis nth_take)
  then have "a ! 0 = b ! 0" "a ! 1 = b ! 1" "a ! 2 = b ! 2" "a ! 3 = b ! 3"
    by simp_all
  with la lb show ?thesis
    by (simp add: fileExt_def)
qed

theorem sniffer_first_four_bytes_witness:
  "4 \<le> length [0x89, 0x50, 0x4E, 0x47, 0x0D :: byte]
   \<and> 4 \<le> length [0x89, 0x50, 0x4E, 0x47, 0xFF, 0xD8 :: byte]
   \<and> take 4 [0x89, 0x50, 0x4E, 0x47, 0x0D :: byte] = take 4 [0x89, 0x50, 0x4E, 0x47, 0xFF, 0xD8]
   \<and> fileExt [0x89, 0x50, 0x4E, 0x47, 0x0D] = fileExt [0x89, 0x50, 0x4E, 0x47, 0xFF, 0xD8]"
proof -
  have la: "4 \<le> length [0x89, 0x50, 0x4E, 0x47, 0x0D :: byte]" by simp
  have lb: "4 \<le> length [0x89, 0x50, 0x4E, 0x47, 0xFF, 0xD8 :: byte]" by simp
  have eq: "take 4 [0x89, 0x50, 0x4E, 0x47, 0x0D :: byte] = take 4 [0x89, 0x50, 0x4E, 0x47, 0xFF, 0xD8]"
    by simp
  show ?thesis
    using la lb eq sniffer_first_four_bytes [OF la lb eq] by simp
qed

subsection \<open>Strings in a response\<close>

lemma utf8_first_cases: "fst (utf8_first x) \<in> {0, 1, 2, 3, 4}"
  by (simp add: utf8_first_def)

lemma utf8_first_lo: "fst (utf8_first x) \<ge> 2 \<Longrightarrow> fst (snd (utf8_first x)) \<ge> 0x80"
  by (simp add: utf8_first_def split: if_splits)

lemma runeLen_le: "runeLen s \<le> length s"
proof (cases "s = []")
  case True
  then show ?thesis by (simp add: runeLen_def)
next
  case False
  then have "1 \<le> length s" by (cases s) simp_all
  then show ?thesis
    using False by (cases "utf8_first (of_char (s ! 0))") (auto simp: runeLen_def split: if_splits)
qed

lemma runeLen_ascii: "(of_char c :: nat) < 0x80 \<Longrightarrow> runeLen (c # cs) = 1"
  by (simp add: runeLen_def utf8_first_def)

lemma runeLen_cont:
  assumes "0 < i" and "i < runeLen s"
  shows "(of_char (s ! i) :: nat) \<ge> 0x80"
proof -
  obtain sz lo hi where f: "utf8_first (of_char (s ! 0)) = (sz, lo, hi)"
    by (cases "utf8_first (of_char (s ! 0))")
  have lo: "sz \<ge> 2 \<Longrightarrow> lo \<ge> 0x80"
    using utf8_first_lo [of "of_char (s ! 0)"] f by simp
  have r: "i < runeLen s" by (rule assms(2))
  have ne: "s \<noteq> []" using r by (auto simp: runeLen_def)
  have "runeLen s \<le> 4"
    using f utf8_first_cases [of "of_char (s ! 0)"]
    by (auto simp: runeLen_def split: if_splits)
  then consider "i = 1" | "i = 2" | "i = 3"
    using assms by arith
  then show ?thesis
  proof cases
    case 1
    then show ?thesis
      using r f lo ne by (auto simp: runeLen_def acceptRange_def split: if_splits)
  next
    case 2
    then show ?thesis
      using r f lo ne by (auto simp: runeLen_def acceptRange_def split: if_splits)
  next
    case 3
    then show ?thesis
      using r f lo ne by (auto simp: runeLen_def acceptRange_def split: if_splits)
  qed
qed

lemma runeLen_take:
  assumes "runeLen s \<noteq> 0" and "runeLen s \<le> m"
  shows "runeLen (take m s) = runeLen s"
proof -
  obtain sz lo hi where f: "utf8_first (of_char (s ! 0)) = (sz, lo, hi)"
    by (cases "utf8_first (of_char (s ! 0))")
  have ne: "s \<noteq> []" using assms(1) by (auto simp: runeLen_def)
  have m: "0 < m" using assms by simp
  have z: "take m s ! 0 = s ! 0" using m by simp
  have tne: "take m s \<noteq> []" using ne m by simp
  show ?thesis
    using assms f z tne ne utf8_first_cases [of "of_char (s ! 0)"]
    by (auto simp: runeLen_def split: if_splits)
qed

lemma ValidString_toValidUTF8: "ValidString s \<Longrightarrow> toValidUTF8 s = s"
  by (induction s rule: toValidUTF8.induct)
     (auto simp: toValidUTF8.simps ValidString.simps simp del: take_Suc_Cons drop_Suc_Cons split: if_splits)

lemma toValidUTF8_ascii: "\<forall>c \<in> set s. (of_char c :: nat) < 0x80 \<Longrightarrow> toValidUTF8 s = s"
  by (induction s) (simp_all add: toValidUTF8.simps runeLen_ascii)

lemma ValidString_ascii: "\<forall>c \<in> set s. (of_char c :: nat) < 0x80 \<Longrightarrow> ValidString s"
  by (induction s) (simp_all add: ValidString.simps runeLen_ascii)

lemma ValidString_before_ascii:
  "ValidString (a @ c # b) \<Longrightarrow> (of_char c :: nat) < 0x80 \<Longrightarrow> ValidString a"
proof (induction a rule: length_induct)
  case (1 a)
  show ?case
  proof (cases a)
    case Nil
    then show ?thesis by simp
  next
    case (Cons x a')
    define s where "s = a @ c # b"
    define n where "n = runeLen s"
    have sx: "s = x # (a' @ c # b)" by (simp add: s_def Cons)
    have v: "n \<noteq> 0" "ValidString (drop n s)"
      using "1.prems"(1) unfolding s_def [symmetric] sx n_def
      by (simp_all add: ValidString.simps split: if_splits)
    have le: "n \<le> length a"
    proof (rule ccontr)
      assume "\<not> n \<le> length a"
      then have "0 < length a" "length a < runeLen s"
        using Cons by (simp_all add: n_def)
      from runeLen_cont [OF this] have "(of_char (s ! length a) :: nat) \<ge> 0x80" .
      then show False
        using "1.prems"(2) by (simp add: s_def)
    qed
    have ta: "take (length a) s = a" by (simp add: s_def)
    have ra: "runeLen a = n"
      using runeLen_take [of s "length a"] v(1) le by (simp add: n_def ta)
    have "drop n s = drop n a @ c # b"
      using le by (simp add: s_def)
    moreover have "length (drop n a) < length a"
      using v(1) Cons by simp
    ultimately have "ValidString (drop n a)"
      using "1.IH" v(2) "1.prems"(2) by auto
    then show ?thesis
      using ra v(1) Cons by (simp add: ValidString.simps)
  qed
qed

lemma toValidUTF8_ascii_append:
  "\<forall>c \<in> set a. (of_char c :: nat) < 0x80 \<Longrightarrow> toValidUTF8 (a @ b) = a @ toValidUTF8 b"
  by (induction a) (simp_all add: toValidUTF8.simps runeLen_ascii)

text \<open>The keys and messages of the responses are ASCII and arrive as written.\<close>

lemma toValidUTF8_constants:
  "toValidUTF8 ''error'' = ''error''"
  "toValidUTF8 ''success'' = ''success''"
  "toValidUTF8 ''url'' = ''url''"
  "toValidUTF8 ''name'' = ''name''"
  "toValidUTF8 ''size'' = ''size''"
  "toValidUTF8 ''upload_time'' = ''upload_time''"
  "toValidUTF8 ''title'' = ''title''"
  "toValidUTF8 ''description'' = ''description''"
  "toValidUTF8 ''Uploaded image'' = ''Uploaded image''"
  "toValidUTF8 ''Invalid request body'' = ''Invalid request body''"
  "toValidUTF8 ''Image data is required'' = ''Image data is required''"
  "toValidUTF8 ''Invalid base64 image data'' = ''Invalid base64 image data''"
  "toValidUTF8 ''Failed to save image'' = ''Failed to save image''"
  "toValidUTF8 ''Failed to read uploads directory'' = ''Failed to read uploads directory''"
  by (rule toValidUTF8_ascii, simp)+

subsection \<open>The upload handler\<close>

lemma splitSep_plain: "CHR ''/'' \<notin> set s \<Longrightarrow> splitSep s = [s]"
  by (induction s) auto

lemma Join_uploads:
  assumes "CHR ''/'' \<notin> set name" and "name \<noteq> []" and "name \<noteq> ''.''" and "name \<noteq> ''..''"
  shows "Join ''./uploads'' name = ''uploads/'' @ name"
proof -
  have "splitSep (''./uploads'' @ CHR ''/'' # name) = [''.'', ''uploads'', name]"
    using assms(1) by (simp add: splitSep_plain)
  then show ?thesis
    using assms(2-4) by (simp add: Join_def Clean_def)
qed

lemma digit_not_sep: "d < 10 \<Longrightarrow> digit d \<noteq> CHR ''/''"
proof -
  assume "d < 10"
  then have "digit d \<in> set ''0123456789''"
    unfolding digit_def by (intro nth_mem) simp
  then show ?thesis by auto
qed

lemma formatUint_no_sep: "CHR ''/'' \<notin> set (formatUint n)"
proof (induction n rule: formatUint.induct)
  case (1 n)
  show ?case
  proof (cases "n < 10")
    case True
    then show ?thesis using digit_not_sep [of n] by (subst formatUint.simps) auto
  next
    case False
    then have "CHR ''/'' \<notin> set (formatUint (n div 10))" using 1 by simp
    moreover have "digit (n mod 10) \<noteq> CHR ''/''" by (rule digit_not_sep) simp
    ultimately show ?thesis
      using False by (subst formatUint.simps) auto
  qed
qed

lemma formatInt_no_sep: "CHR ''/'' \<notin> set (formatInt i)"
  by (simp add: formatInt_def formatUint_no_sep)

lemma fileExt_no_sep: "CHR ''/'' \<notin> set (fileExt d)"
  by (simp add: fileExt_def)

lemma sanitizeFilename_no_sep: "CHR ''/'' \<notin> set (sanitizeFilename t)"
  using sanitizeFilename_no_forbidden [of t] by (auto simp: spec_forbidden_def)

text \<open>The name the upload handler composes.\<close>

lemma Join_filename:
  assumes "name = formatInt ts @ ''_'' @ (if sanitizeFilename t = [] then ''image'' else sanitizeFilename t) @ fileExt d"
  shows "Join ''./uploads'' name = ''uploads/'' @ name"
proof (rule Join_uploads)
  show "CHR ''/'' \<notin> set name"
    using assms by (simp add: formatInt_no_sep fileExt_no_sep sanitizeFilename_no_sep)
  have "CHR ''_'' \<in> set name"
    using assms by simp
  then show "name \<noteq> []" "name \<noteq> ''.''" "name \<noteq> ''..''"
    by auto
qed

lemma upload_decoded:
  assumes "Image p \<noteq> []" and "DecodeString (Image p) = Inr d"
    and "name = formatInt (now ev) @ ''_'' @ (if sanitizeFilename (Title p) = [] then ''image'' else sanitizeFilename (Title p)) @ fileExt d"
  shows "handleImageUpload ev (Inr p) s =
     (case WriteFile ev (''uploads/'' @ name) d s of
        (Some err, s') \<Rightarrow>
          (Status_JSON 500 (JObject [(''error'', JString ''Failed to save image''), (''success'', JBool False)]),
           Printf ''Error saving file: %v'' [E err] s')
      | (None, s') \<Rightarrow>
          (JSON (JObject [(''success'', JBool True), (''url'', JString (''/uploads/'' @ name))]),
           Printf ''Image uploaded successfully: %s (Title: %s, Description: %s)''
             [S name, S (Title p), S (Description p)] s'))"
proof -
  show ?thesis
    unfolding assms(3)
    by (simp only: handleImageUpload_def Let_def sum.case assms(1) assms(2) if_False
          Join_filename [OF refl])
qed

lemma formatUint_small: "n < 10 \<Longrightarrow> formatUint n = [digit n]"
  by (subst formatUint.simps) simp

lemma formatUint_large: "10 \<le> n \<Longrightarrow> formatUint n = formatUint (n div 10) @ [digit (n mod 10)]"
  by (subst formatUint.simps) simp

lemma WriteFile_Written:
  "os_write ev path d = Written \<Longrightarrow> WriteFile ev path d s = (None, s\<lparr>disk := (disk s)(path \<mapsto> d)\<rparr>)"
  by (simp add: WriteFile_def)

text \<open>
  A successful upload: the decoded bytes are stored under the composed name, and the
  response carries the address of that name as the marshaller writes it.
\<close>

lemma upload_written:
  assumes "Image p \<noteq> []" and "DecodeString (Image p) = Inr d"
    and "name = formatInt (now ev) @ ''_'' @ (if sanitizeFilename (Title p) = [] then ''image'' else sanitizeFilename (Title p)) @ fileExt d"
    and "os_write ev (''uploads/'' @ name) d = Written"
  shows "handleImageUpload ev (Inr p) s =
     (\<lparr>status = 200, body = JObject [(''success'', JBool True),
                                      (''url'', JString (''/uploads/'' @ toValidUTF8 name))]\<rparr>,
      \<lparr>disk = (disk s)(''uploads/'' @ name \<mapsto> d),
       logs = logs s @ [(''Image uploaded successfully: %s (Title: %s, Description: %s)'',
                         [S name, S (Title p), S (Description p)])]\<rparr>)"
proof -
  have "toValidUTF8 (''/uploads/'' @ name) = ''/uploads/'' @ toValidUTF8 name"
    by (rule toValidUTF8_ascii_append) simp
  then show ?thesis
    by (simp only: upload_decoded [OF assms(1-3)] WriteFile_Written [OF assms(4)])
       (simp add: JSON_def Printf_def toValidUTF8_constants)
qed

text \<open>The other outcome of the same path: the write fails and the answer is 500.\<close>

lemma upload_not_written:
  assumes "Image p \<noteq> []" and "DecodeString (Image p) = Inr d"
    and "name = formatInt (now ev) @ ''_'' @ (if sanitizeFilename (Title p) = [] then ''image'' else sanitizeFilename (Title p)) @ fileExt d"
    and "os_write ev (''uploads/'' @ name) d \<noteq> Written"
  shows "fst (handleImageUpload ev (Inr p) s) =
     \<lparr>status = 500, body = JObject [(''error'', JString ''Failed to save image''), (''success'', JBool False)]\<rparr>"
proof (cases "os_write ev (''uploads/'' @ name) d")
  case Written
  then show ?thesis using assms(4) by simp
next
  case OpenFailed
  then show ?thesis
    by (simp only: upload_decoded [OF assms(1-3)])
       (simp add: WriteFile_def Status_JSON_def toValidUTF8_constants)
next
  case (WriteFailed k)
  then show ?thesis
    by (simp only: upload_decoded [OF assms(1-3)])
       (simp add: WriteFile_def Status_JSON_def toValidUTF8_constants)
qed

text \<open>The timestamp is written in decimal and reads back as the clock's value.\<close>

lemma digit_in_digits: "d < 10 \<Longrightarrow> digit d \<in> set ''0123456789''"
  unfolding digit_def by (intro nth_mem) simp

lemma formatUint_digits: "set (formatUint n) \<subseteq> set ''0123456789''"
proof (induction n rule: formatUint.induct)
  case (1 n)
  show ?case
  proof (cases "n < 10")
    case True
    then show ?thesis
      using digit_in_digits [of n] by (simp add: formatUint_small)
  next
    case False
    then have "set (formatUint (n div 10)) \<subseteq> set ''0123456789''"
      using 1 by simp
    moreover have "digit (n mod 10) \<in> set ''0123456789''"
      by (rule digit_in_digits) simp
    ultimately show ?thesis
      using False by (simp add: formatUint_large)
  qed
qed

lemma formatUint_nonempty: "formatUint n \<noteq> []"
  by (cases "n < 10") (simp_all add: formatUint_small formatUint_large)

lemma formatInt_ascii: "\<forall>c \<in> set (formatInt i). (of_char c :: nat) < 0x80"
proof -
  have "\<forall>c \<in> set ''0123456789''. (of_char c :: nat) < 0x80"
    by simp
  then have "\<forall>c \<in> set (formatUint n). (of_char c :: nat) < 0x80" for n
    using formatUint_digits [of n] by blast
  then show ?thesis
    by (simp add: formatInt_def)
qed

lemma digit_value: "d < 10 \<Longrightarrow> (of_char (digit d) :: nat) - 48 = d"
proof -
  assume "d < 10"
  then consider "d = 0" | "d = 1" | "d = 2" | "d = 3" | "d = 4" | "d = 5" | "d = 6" | "d = 7"
    | "d = 8" | "d = 9"
    by atomize_elim arith
  then show ?thesis
    by cases (simp_all add: digit_def)
qed

lemma parseUint_snoc: "parseUint (s @ [c]) = 10 * parseUint s + (of_char c - 48)"
  by (simp add: parseUint_def)

lemma parseUint_formatUint: "parseUint (formatUint n) = n"
proof (induction n rule: formatUint.induct)
  case (1 n)
  show ?case
  proof (cases "n < 10")
    case True
    then show ?thesis
      by (simp add: formatUint_small parseUint_def digit_value)
  next
    case False
    then have "parseUint (formatUint (n div 10)) = n div 10"
      using 1 by simp
    then show ?thesis
      using False by (simp add: formatUint_large parseUint_snoc digit_value)
  qed
qed

lemma decimal_value_formatInt: "decimal_value (formatInt i) = i"
proof (cases "i < 0")
  case True
  then show ?thesis
    by (simp add: decimal_value_def formatInt_def parseUint_formatUint)
next
  case False
  obtain c r where cr: "formatUint (nat i) = c # r"
    using formatUint_nonempty [of "nat i"] by (cases "formatUint (nat i)") auto
  then have "c \<in> set ''0123456789''"
    using formatUint_digits [of "nat i"] by auto
  then have "c \<noteq> CHR ''-''"
    by auto
  then have "decimal_value (formatUint (nat i)) = int (parseUint (formatUint (nat i)))"
    by (simp add: decimal_value_def cr)
  then show ?thesis
    using False by (simp add: formatInt_def parseUint_formatUint)
qed

lemma fileExt_ascii: "\<forall>c \<in> set (fileExt d). (of_char c :: nat) < 0x80"
  by (simp add: fileExt_def)

lemma example_time: "formatInt (now example_env) = ''1700000000''"
  by (simp add: example_env_def formatInt_def formatUint_small formatUint_large digit_def)

lemma example_png: "DecodeString ''iVBORw0KGgo='' = Inr [0x89, 0x50, 0x4E, 0x47, 0x0D, 0x0A, 0x1A, 0x0A]"
  by code_simp

lemma example_writes: "os_write example_env path d = Written"
  by (simp add: example_env_def)

text \<open>
  Claim C1. For every successful upload (the body parsed, the image field is not empty, it
  decodes as base64, and the write succeeds), the file written to the storage directory is
  named \<open>{timestamp}_{sanitizedTitle}{extension}\<close>: the timestamp is the clock's Unix
  time in decimal, the title is the sanitizer's output on the submitted title, or
  \<open>image\<close> when that output is empty, and the extension is the sniffer's result on the
  decoded bytes. The file holds the decoded bytes and the response is 200 with
  \<open>success: true\<close>. The URL of the response is \<open>/uploads/\<close> followed by the file
  name as the marshaller writes it: it is the URL of the stored file when the name is valid
  UTF-8, and it is not when the cut at 50 bytes has split a character of the title, as in
  the instance below, where the stored name ends in the byte \<open>C3\<close> and the URL carries
  U+FFFD in its place.
\<close>

theorem upload_stores_under_composed_name:
  assumes "Image p \<noteq> []" and "DecodeString (Image p) = Inr d"
    and "name = formatInt (now ev) @ ''_'' @ (if sanitizeFilename (Title p) = [] then ''image'' else sanitizeFilename (Title p)) @ fileExt d"
    and "os_write ev (''uploads/'' @ name) d = Written"
  shows "disk (snd (handleImageUpload ev (Inr p) s)) = (disk s)(''uploads/'' @ name \<mapsto> d)
       \<and> decimal_value (formatInt (now ev)) = now ev
       \<and> fst (handleImageUpload ev (Inr p) s) =
           \<lparr>status = 200, body = JObject [(''success'', JBool True),
                                          (''url'', JString (''/uploads/'' @ toValidUTF8 name))]\<rparr>
       \<and> (ValidString name \<longrightarrow>
           fst (handleImageUpload ev (Inr p) s) =
             \<lparr>status = 200, body = JObject [(''success'', JBool True),
                                            (''url'', JString (''/uploads/'' @ name))]\<rparr>)"
  by (simp add: upload_written [OF assms] decimal_value_formatInt ValidString_toValidUTF8)

theorem upload_stores_under_composed_name_witness:
  "disk (snd (handleImageUpload example_env
          (Inr \<lparr>Title = ''aaaaaaaaaaaaaaaaaaaaaaaaaaaaaaaaaaaaaaaaaaaaaaaaa'' @ [CHR 0xC3, CHR 0xA9],
                Description = [], Image = ''iVBORw0KGgo=''\<rparr>) example_state))
     (''uploads/1700000000_aaaaaaaaaaaaaaaaaaaaaaaaaaaaaaaaaaaaaaaaaaaaaaaaa'' @ [CHR 0xC3] @ ''.png'')
     = Some [0x89, 0x50, 0x4E, 0x47, 0x0D, 0x0A, 0x1A, 0x0A]
   \<and> fst (handleImageUpload example_env
          (Inr \<lparr>Title = ''aaaaaaaaaaaaaaaaaaaaaaaaaaaaaaaaaaaaaaaaaaaaaaaaa'' @ [CHR 0xC3, CHR 0xA9],
                Description = [], Image = ''iVBORw0KGgo=''\<rparr>) example_state) =
     \<lparr>status = 200,
      body = JObject [(''success'', JBool True),
                      (''url'', JString (''/uploads/1700000000_aaaaaaaaaaaaaaaaaaaaaaaaaaaaaaaaaaaaaaaaaaaaaaaaa''
                                         @ [CHR 0xEF, CHR 0xBF, CHR 0xBD] @ ''.png''))]\<rparr>
   \<and> decimal_value (formatInt 1700000000) = 1700000000"
proof -
  have h1: "Image \<lparr>Title = ''aaaaaaaaaaaaaaaaaaaaaaaaaaaaaaaaaaaaaaaaaaaaaaaaa'' @ [CHR 0xC3, CHR 0xA9],
                Description = [], Image = ''iVBORw0KGgo=''\<rparr> \<noteq> []"
    by simp
  have h2: "DecodeString (Image \<lparr>Title = ''aaaaaaaaaaaaaaaaaaaaaaaaaaaaaaaaaaaaaaaaaaaaaaaaa'' @ [CHR 0xC3, CHR 0xA9],
                Description = [], Image = ''iVBORw0KGgo=''\<rparr>)
            = Inr [0x89, 0x50, 0x4E, 0x47, 0x0D, 0x0A, 0x1A, 0x0A]"
    by (simp add: example_png)
  have h3: "''1700000000_aaaaaaaaaaaaaaaaaaaaaaaaaaaaaaaaaaaaaaaaaaaaaaaaa'' @ [CHR 0xC3] @ ''.png'' =
      formatInt (now example_env) @ ''_'' @
      (if sanitizeFilename (Title \<lparr>Title = ''aaaaaaaaaaaaaaaaaaaaaaaaaaaaaaaaaaaaaaaaaaaaaaaaa'' @ [CHR 0xC3, CHR 0xA9],
                Description = [], Image = ''iVBORw0KGgo=''\<rparr>) = []
       then ''image''
       else sanitizeFilename (Title \<lparr>Title = ''aaaaaaaaaaaaaaaaaaaaaaaaaaaaaaaaaaaaaaaaaaaaaaaaa'' @ [CHR 0xC3, CHR 0xA9],
                Description = [], Image = ''iVBORw0KGgo=''\<rparr>))
      @ fileExt [0x89, 0x50, 0x4E, 0x47, 0x0D, 0x0A, 0x1A, 0x0A]"
    by (simp add: example_time sanitizeFilename_map spec_replacement_def spec_forbidden_def fileExt_def)
  have u: "toValidUTF8 (''1700000000_aaaaaaaaaaaaaaaaaaaaaaaaaaaaaaaaaaaaaaaaaaaaaaaaa'' @ [CHR 0xC3] @ ''.png'') =
      ''1700000000_aaaaaaaaaaaaaaaaaaaaaaaaaaaaaaaaaaaaaaaaaaaaaaaaa'' @ [CHR 0xEF, CHR 0xBF, CHR 0xBD] @ ''.png''"
    by (subst toValidUTF8_ascii_append)
       (simp_all add: toValidUTF8.simps runeLen_def utf8_first_def acceptRange_def)
  have n: "now example_env = 1700000000"
    by (simp add: example_env_def)
  from upload_stores_under_composed_name [OF h1 h2 h3 example_writes, where s = example_state]
  show ?thesis
    unfolding u n by (simp add: example_state_def)
qed

lemma DecodeString_percent: "DecodeString ''%%%'' = Inl CorruptInputError"
  by (simp add: DecodeString_def decodeMap_def isNewline_def)

text \<open>
  Claim C4. An upload whose image field is the empty string is answered with 400 and the
  reason "Image data is required"; an upload whose image field does not decode as base64,
  such as \<open>%%%\<close>, is answered with 400 and the reason "Invalid base64 image data". In
  both cases no file is written: the files on disk are the same after the request. (The
  first case leaves the whole state alone; the second adds a line to the server log.)
\<close>

theorem upload_rejects_missing_or_undecodable_image:
  "(Image p = [] \<longrightarrow>
      handleImageUpload ev (Inr p) s =
        (\<lparr>status = 400, body = JObject [(''error'', JString ''Image data is required''),
                                        (''success'', JBool False)]\<rparr>, s))
   \<and> (Image p \<noteq> [] \<and> DecodeString (Image p) = Inl e \<longrightarrow>
      fst (handleImageUpload ev (Inr p) s) =
        \<lparr>status = 400, body = JObject [(''error'', JString ''Invalid base64 image data''),
                                       (''success'', JBool False)]\<rparr>
      \<and> disk (snd (handleImageUpload ev (Inr p) s)) = disk s)
   \<and> DecodeString ''%%%'' = Inl CorruptInputError"
  by (simp add: handleImageUpload_def Status_JSON_def Printf_def DecodeString_percent
        toValidUTF8_constants)

theorem upload_rejects_missing_or_undecodable_image_witness:
  "handleImageUpload example_env (Inr \<lparr>Title = ''t'', Description = ''d'', Image = ''''\<rparr>) example_state =
     (\<lparr>status = 400, body = JObject [(''error'', JString ''Image data is required''),
                                     (''success'', JBool False)]\<rparr>, example_state)
   \<and> fst (handleImageUpload example_env (Inr \<lparr>Title = ''t'', Description = ''d'', Image = ''%%%''\<rparr>) example_state) =
     \<lparr>status = 400, body = JObject [(''error'', JString ''Invalid base64 image data''),
                                    (''success'', JBool False)]\<rparr>
   \<and> disk (snd (handleImageUpload example_env (Inr \<lparr>Title = ''t'', Description = ''d'', Image = ''%%%''\<rparr>) example_state))
       = disk example_state"
  using upload_rejects_missing_or_undecodable_image
          [where p = "\<lparr>Title = ''t'', Description = ''d'', Image = ''''\<rparr>"
             and ev = example_env and s = example_state]
        upload_rejects_missing_or_undecodable_image
          [where p = "\<lparr>Title = ''t'', Description = ''d'', Image = ''%%%''\<rparr>"
             and e = CorruptInputError and ev = example_env and s = example_state]
  by simp

text \<open>
  Claim C5 says that a title made only of forbidden characters is coerced to \<open>image\<close>
  like the empty title. The sanitizer replaces bytes and never removes one, so such a
  title keeps its length: the title \<open>/?\<close> is sanitized to \<open>--\<close> and stored under that
  name.
\<close>

theorem forbidden_title_not_coerced_counterexample:
  "set ''/?'' \<subseteq> spec_forbidden
   \<and> sanitizeFilename ''/?'' = ''--''
   \<and> fst (handleImageUpload example_env
             (Inr \<lparr>Title = ''/?'', Description = '''', Image = ''iVBORw0KGgo=''\<rparr>) example_state) =
       \<lparr>status = 200, body = JObject [(''success'', JBool True),
                                      (''url'', JString ''/uploads/1700000000_--.png'')]\<rparr>"
proof -
  have h1: "Image \<lparr>Title = ''/?'', Description = '''', Image = ''iVBORw0KGgo=''\<rparr> \<noteq> []"
    by simp
  have h2: "DecodeString (Image \<lparr>Title = ''/?'', Description = '''', Image = ''iVBORw0KGgo=''\<rparr>)
            = Inr [0x89, 0x50, 0x4E, 0x47, 0x0D, 0x0A, 0x1A, 0x0A]"
    by (simp add: example_png)
  have h3: "''1700000000_--.png'' =
      formatInt (now example_env) @ ''_'' @
      (if sanitizeFilename (Title \<lparr>Title = ''/?'', Description = '''', Image = ''iVBORw0KGgo=''\<rparr>) = []
       then ''image''
       else sanitizeFilename (Title \<lparr>Title = ''/?'', Description = '''', Image = ''iVBORw0KGgo=''\<rparr>))
      @ fileExt [0x89, 0x50, 0x4E, 0x47, 0x0D, 0x0A, 0x1A, 0x0A]"
    by (simp add: example_time sanitizeFilename_map spec_replacement_def spec_forbidden_def fileExt_def)
  have u: "toValidUTF8 ''1700000000_--.png'' = ''1700000000_--.png''"
    by (rule toValidUTF8_ascii) simp
  have "set ''/?'' \<subseteq> spec_forbidden" "sanitizeFilename ''/?'' = ''--''"
    by (simp_all add: sanitizeFilename_map spec_replacement_def spec_forbidden_def)
  then show ?thesis
    by (simp only: upload_written [OF h1 h2 h3 example_writes] u) simp
qed

lemma spec_replacement_forbidden:
  "c \<in> spec_forbidden \<Longrightarrow> spec_replacement c \<in> {CHR ''_'', CHR ''-''}"
  by (simp add: spec_replacement_def)

lemma sanitizeFilename_forbidden:
  assumes "set t \<subseteq> spec_forbidden"
  shows "set (sanitizeFilename t) \<subseteq> {CHR ''_'', CHR ''-''}"
proof -
  have "set (sanitizeFilename t) \<subseteq> spec_replacement ` set t"
    using set_take_subset [of 50 "map spec_replacement t"] by (simp add: sanitizeFilename_map)
  then show ?thesis
    using assms spec_replacement_forbidden by blast
qed

text \<open>
  Claim C5, amended. For every title that is empty or consists entirely of the ten
  forbidden characters: the empty title gives the stored-filename component \<open>image\<close>;
  a non-empty one gives the sanitizer's output, which is not empty and not \<open>image\<close>
  but a string of \<open>_\<close> and \<open>-\<close>, one for each of the first 50 bytes of the title.
\<close>

theorem only_empty_title_coerced_to_image:
  assumes "set (Title p) \<subseteq> spec_forbidden"
    and "Image p \<noteq> []" and "DecodeString (Image p) = Inr d"
    and "component = (if Title p = [] then ''image'' else sanitizeFilename (Title p))"
    and "os_write ev (''uploads/'' @ formatInt (now ev) @ ''_'' @ component @ fileExt d) d = Written"
  shows "fst (handleImageUpload ev (Inr p) s) =
           \<lparr>status = 200,
            body = JObject [(''success'', JBool True),
                            (''url'', JString (''/uploads/'' @ formatInt (now ev) @ ''_'' @ component @ fileExt d))]\<rparr>
       \<and> disk (snd (handleImageUpload ev (Inr p) s)) =
           (disk s)(''uploads/'' @ formatInt (now ev) @ ''_'' @ component @ fileExt d \<mapsto> d)
       \<and> (Title p \<noteq> [] \<longrightarrow>
            component \<noteq> [] \<and> component \<noteq> ''image''
            \<and> set component \<subseteq> {CHR ''_'', CHR ''-''}
            \<and> length component = min (length (Title p)) 50)"
proof -
  have c: "component = (if sanitizeFilename (Title p) = [] then ''image'' else sanitizeFilename (Title p))"
    using assms(4) by (simp add: sanitizeFilename_empty)
  have n: "formatInt (now ev) @ ''_'' @ component @ fileExt d =
           formatInt (now ev) @ ''_'' @ (if sanitizeFilename (Title p) = [] then ''image'' else sanitizeFilename (Title p)) @ fileExt d"
    by (simp only: c [symmetric])
  have "component \<noteq> ''image''" if "Title p \<noteq> []"
  proof
    assume "component = ''image''"
    then have "CHR ''i'' \<in> set (sanitizeFilename (Title p))"
      using that assms(4) by simp
    then show False
      using sanitizeFilename_forbidden [OF assms(1)] by auto
  qed
  moreover have "Title p \<noteq> [] \<longrightarrow> component \<noteq> [] \<and> set component \<subseteq> {CHR ''_'', CHR ''-''}
      \<and> length component = min (length (Title p)) 50"
    using assms(4) sanitizeFilename_forbidden [OF assms(1)]
    by (simp add: sanitizeFilename_empty sanitizeFilename_length)
  moreover have "\<forall>c \<in> set component. (of_char c :: nat) < 0x80"
  proof (cases "Title p = []")
    case True
    then show ?thesis using assms(4) by simp
  next
    case False
    then have "set component \<subseteq> {CHR ''_'', CHR ''-''}"
      using assms(4) sanitizeFilename_forbidden [OF assms(1)] by simp
    then show ?thesis by auto
  qed
  then have "toValidUTF8 (formatInt (now ev) @ ''_'' @ component @ fileExt d) =
             formatInt (now ev) @ ''_'' @ component @ fileExt d"
    using formatInt_ascii [of "now ev"] fileExt_ascii [of d]
    by (intro toValidUTF8_ascii) auto
  ultimately show ?thesis
    using upload_written [OF assms(2,3) n assms(5), where s = s] by simp
qed

theorem only_empty_title_coerced_to_image_witness:
  "fst (handleImageUpload example_env
          (Inr \<lparr>Title = [], Description = ''d'', Image = ''iVBORw0KGgo=''\<rparr>) example_state) =
     \<lparr>status = 200, body = JObject [(''success'', JBool True),
                                    (''url'', JString ''/uploads/1700000000_image.png'')]\<rparr>
   \<and> disk (snd (handleImageUpload example_env
          (Inr \<lparr>Title = ''/ ?'', Description = ''d'', Image = ''iVBORw0KGgo=''\<rparr>) example_state))
       ''uploads/1700000000_-_-.png'' = Some [0x89, 0x50, 0x4E, 0x47, 0x0D, 0x0A, 0x1A, 0x0A]"
proof -
  have d1: "DecodeString (Image \<lparr>Title = [], Description = ''d'', Image = ''iVBORw0KGgo=''\<rparr>)
            = Inr [0x89, 0x50, 0x4E, 0x47, 0x0D, 0x0A, 0x1A, 0x0A]"
    by code_simp
  have d2: "DecodeString (Image \<lparr>Title = ''/ ?'', Description = ''d'', Image = ''iVBORw0KGgo=''\<rparr>)
            = Inr [0x89, 0x50, 0x4E, 0x47, 0x0D, 0x0A, 0x1A, 0x0A]"
    by code_simp
  have f1: "set (Title \<lparr>Title = [], Description = ''d'', Image = ''iVBORw0KGgo=''\<rparr>) \<subseteq> spec_forbidden"
    by simp
  have f2: "set (Title \<lparr>Title = ''/ ?'', Description = ''d'', Image = ''iVBORw0KGgo=''\<rparr>) \<subseteq> spec_forbidden"
    by (simp add: spec_forbidden_def)
  have i1: "Image \<lparr>Title = [], Description = ''d'', Image = ''iVBORw0KGgo=''\<rparr> \<noteq> []"
    by simp
  have i2: "Image \<lparr>Title = ''/ ?'', Description = ''d'', Image = ''iVBORw0KGgo=''\<rparr> \<noteq> []"
    by simp
  have c1: "''image'' = (if Title \<lparr>Title = [], Description = ''d'', Image = ''iVBORw0KGgo=''\<rparr> = []
      then ''image''
      else sanitizeFilename (Title \<lparr>Title = [], Description = ''d'', Image = ''iVBORw0KGgo=''\<rparr>))"
    by simp
  have c2: "''-_-'' = (if Title \<lparr>Title = ''/ ?'', Description = ''d'', Image = ''iVBORw0KGgo=''\<rparr> = []
      then ''image''
      else sanitizeFilename (Title \<lparr>Title = ''/ ?'', Description = ''d'', Image = ''iVBORw0KGgo=''\<rparr>))"
    by (simp add: sanitizeFilename_map spec_replacement_def spec_forbidden_def)
  have w: "os_write example_env path d = Written" for path d
    by (simp add: example_env_def)
  have t: "formatInt (now example_env) = ''1700000000''"
    by (simp add: example_env_def formatInt_def formatUint_small formatUint_large digit_def)
  show ?thesis
    using only_empty_title_coerced_to_image [OF f1 i1 d1 c1 w, where s = example_state]
      only_empty_title_coerced_to_image [OF f2 i2 d2 c2 w, where s = example_state]
    by (simp add: t fileExt_def)
qed

text \<open>
  Claim C8. For every input string \<open>t\<close> the sanitizer's output has byte length exactly
  \<open>min (length t) 50\<close>, so the output is empty if and only if \<open>t\<close> is empty, and the
  upload handler takes the \<open>image\<close> fallback exactly when the submitted title is the
  empty string: a successful upload is stored under the clock's Unix time in decimal,
  \<open>_\<close>, then \<open>image\<close> for the empty title and the sanitizer's non-empty output for
  every other title, then the extension.
\<close>

theorem sanitizer_length_and_fallback:
  "length (sanitizeFilename t) = min (length t) 50
   \<and> (sanitizeFilename t = [] \<longleftrightarrow> t = [])
   \<and> (Image p \<noteq> [] \<and> DecodeString (Image p) = Inr d
        \<and> os_write ev (''uploads/'' @ formatInt (now ev) @ ''_''
               @ (if Title p = [] then ''image'' else sanitizeFilename (Title p)) @ fileExt d) d = Written
      \<longrightarrow> disk (snd (handleImageUpload ev (Inr p) s)) =
            (disk s)(''uploads/'' @ formatInt (now ev) @ ''_''
                       @ (if Title p = [] then ''image'' else sanitizeFilename (Title p))
                       @ fileExt d \<mapsto> d)
          \<and> decimal_value (formatInt (now ev)) = now ev
          \<and> (Title p \<noteq> [] \<longrightarrow> sanitizeFilename (Title p) \<noteq> []))"
proof -
  have n: "formatInt (now ev) @ ''_'' @ (if Title p = [] then ''image'' else sanitizeFilename (Title p)) @ fileExt d =
           formatInt (now ev) @ ''_'' @ (if sanitizeFilename (Title p) = [] then ''image'' else sanitizeFilename (Title p)) @ fileExt d"
    by (simp add: sanitizeFilename_empty)
  show ?thesis
    using upload_written [OF _ _ n, where s = s]
    by (simp add: sanitizeFilename_length sanitizeFilename_empty decimal_value_formatInt)
qed

theorem sanitizer_length_and_fallback_witness:
  "length (sanitizeFilename (replicate 60 CHR ''a'')) = 50
   \<and> sanitizeFilename [] = []
   \<and> disk (snd (handleImageUpload example_env
          (Inr \<lparr>Title = [], Description = ''d'', Image = ''/9j/4A==''\<rparr>) example_state))
       ''uploads/1700000000_image.jpg'' = Some [0xFF, 0xD8, 0xFF, 0xE0]
   \<and> disk (snd (handleImageUpload (example_env\<lparr>now := 42\<rparr>)
          (Inr \<lparr>Title = ''aaaaaaaaaaaaaaaaaaaaaaaaaaaaaaaaaaaaaaaaaaaaaaaaa'' @ [CHR 0xC3, CHR 0xA9], Description = ''d'',
                Image = ''/9j/4A==''\<rparr>) example_state))
       (''uploads/42_aaaaaaaaaaaaaaaaaaaaaaaaaaaaaaaaaaaaaaaaaaaaaaaaa'' @ [CHR 0xC3] @ ''.jpg'') = Some [0xFF, 0xD8, 0xFF, 0xE0]
   \<and> decimal_value (formatInt 42) = 42"
proof -
  let ?p1 = "\<lparr>Title = [], Description = ''d'', Image = ''/9j/4A==''\<rparr>"
  let ?p2 = "\<lparr>Title = ''aaaaaaaaaaaaaaaaaaaaaaaaaaaaaaaaaaaaaaaaaaaaaaaaa'' @ [CHR 0xC3, CHR 0xA9], Description = ''d'', Image = ''/9j/4A==''\<rparr>"
  let ?ev2 = "example_env\<lparr>now := 42\<rparr>"
  let ?d = "[0xFF, 0xD8, 0xFF, 0xE0] :: byte list"
  have d1: "DecodeString ''/9j/4A=='' = Inr ?d"
    by code_simp
  have t2: "formatInt 42 = ''42''"
    by (simp add: formatInt_def formatUint_small formatUint_large digit_def)
  have s2: "sanitizeFilename (''aaaaaaaaaaaaaaaaaaaaaaaaaaaaaaaaaaaaaaaaaaaaaaaaa'' @ [CHR 0xC3, CHR 0xA9]) = ''aaaaaaaaaaaaaaaaaaaaaaaaaaaaaaaaaaaaaaaaaaaaaaaaa'' @ [CHR 0xC3]"
    by (simp add: sanitizeFilename_map spec_replacement_def spec_forbidden_def)
  have e: "fileExt ?d = ''.jpg''"
    by (simp add: fileExt_def)
  have a: "length (sanitizeFilename (replicate 60 CHR ''a'')) = 50"
    using sanitizer_length_and_fallback [where t = "replicate 60 CHR ''a''", THEN conjunct1]
    by simp
  have b: "sanitizeFilename [] = []"
    using sanitizer_length_and_fallback [where t = "[]", THEN conjunct2, THEN conjunct1]
    by simp
  have c1: "Image ?p1 \<noteq> [] \<and> DecodeString (Image ?p1) = Inr ?d
      \<and> os_write example_env (''uploads/'' @ formatInt (now example_env) @ ''_''
           @ (if Title ?p1 = [] then ''image'' else sanitizeFilename (Title ?p1)) @ fileExt ?d) ?d = Written"
    by (simp add: d1 example_writes)
  have c2: "Image ?p2 \<noteq> [] \<and> DecodeString (Image ?p2) = Inr ?d
      \<and> os_write ?ev2 (''uploads/'' @ formatInt (now ?ev2) @ ''_''
           @ (if Title ?p2 = [] then ''image'' else sanitizeFilename (Title ?p2)) @ fileExt ?d) ?d = Written"
    by (simp add: d1 example_env_def)
  have r1: "disk (snd (handleImageUpload example_env (Inr ?p1) example_state))
       ''uploads/1700000000_image.jpg'' = Some ?d"
    using sanitizer_length_and_fallback [where t = "[]" and s = example_state,
        THEN conjunct2, THEN conjunct2, THEN mp, OF c1]
    by (simp add: example_time e)
  have r2: "disk (snd (handleImageUpload ?ev2 (Inr ?p2) example_state))
       (''uploads/42_aaaaaaaaaaaaaaaaaaaaaaaaaaaaaaaaaaaaaaaaaaaaaaaaa'' @ [CHR 0xC3] @ ''.jpg'') = Some ?d
     \<and> decimal_value (formatInt 42) = 42"
    using sanitizer_length_and_fallback [where t = "[]" and s = example_state,
        THEN conjunct2, THEN conjunct2, THEN mp, OF c2]
    by (simp add: t2 s2 [simplified] e)
  from a b r1 r2 show ?thesis
    by blast
qed

subsection \<open>The listing handler\<close>

lemma extScan_suffix: "suffix (extScan r acc) (rev r @ acc)"
proof (induction r arbitrary: acc)
  case Nil
  then show ?case by simp
next
  case (Cons c r)
  have "suffix (c # acc) (rev r @ c # acc)"
    by (simp add: suffix_def)
  moreover have "suffix (extScan r (c # acc)) (rev r @ c # acc)"
    by (rule Cons.IH)
  ultimately show ?case by auto
qed

lemma Ext_suffix: "suffix (Ext n) n"
  using extScan_suffix [of "rev n" "[]"] by (simp add: Ext_def)

lemma TrimSuffix_Ext: "TrimSuffix n (Ext n) @ Ext n = n"
proof -
  obtain t where "n = t @ Ext n"
    using Ext_suffix [of n] by (auto simp: suffix_def)
  then have "take (length n - length (Ext n)) n = t"
    by (metis append_eq_conv_conj length_append add_diff_cancel_right')
  then show ?thesis
    using \<open>n = t @ Ext n\<close> Ext_suffix [of n] by (simp add: TrimSuffix_def)
qed

text \<open>
  What \<open>filepath.Ext\<close> is on a directory entry: nothing when the name has no dot,
  and otherwise the part of the name from its last dot on.
\<close>

lemma extScan_no_dot: "CHR ''.'' \<notin> set r \<Longrightarrow> extScan r acc = []"
  by (induction r arbitrary: acc) auto

lemma Ext_no_dot: "CHR ''.'' \<notin> set n \<Longrightarrow> Ext n = []"
  by (simp add: Ext_def extScan_no_dot)

lemma extScan_last_dot:
  "CHR ''.'' \<notin> set r \<Longrightarrow> CHR ''/'' \<notin> set r \<Longrightarrow>
   extScan (r @ CHR ''.'' # r') acc = CHR ''.'' # rev r @ acc"
  by (induction r arbitrary: acc) auto

lemma Ext_last_dot:
  "CHR ''.'' \<notin> set b \<Longrightarrow> CHR ''/'' \<notin> set b \<Longrightarrow> Ext (a @ CHR ''.'' # b) = CHR ''.'' # b"
  using extScan_last_dot [of "rev b" "rev a" "[]"] by (simp add: Ext_def)

lemma TrimSuffix_Ext_last_dot:
  "CHR ''.'' \<notin> set b \<Longrightarrow> CHR ''/'' \<notin> set b \<Longrightarrow>
   TrimSuffix (a @ CHR ''.'' # b) (Ext (a @ CHR ''.'' # b)) = a"
  using TrimSuffix_Ext [of "a @ CHR ''.'' # b"] by (simp add: Ext_last_dot)

lemma imagesLoop_state_irrelevant:
  "fst (imagesLoop ev files images s) = fst (imagesLoop ev files images s')"
  by (induction files arbitrary: images s s') (auto split: sum.splits)

lemma imagesLoop_append:
  "fst (imagesLoop ev (xs @ ys) images s) = fst (imagesLoop ev ys (fst (imagesLoop ev xs images s)) s)"
proof (induction xs arbitrary: images s)
  case Nil
  then show ?case by simp
next
  case (Cons x xs)
  show ?case
    using Cons.IH imagesLoop_state_irrelevant
    by (auto split: sum.splits)
qed

lemma extScan_shape: "extScan r acc = [] \<or> (\<exists>x. extScan r acc = CHR ''.'' # x)"
  by (induction r arbitrary: acc) auto

lemma Ext_shape: "Ext n = [] \<or> (\<exists>x. Ext n = CHR ''.'' # x)"
  by (simp add: Ext_def extScan_shape)

text \<open>The cut before the extension falls on a character boundary.\<close>

lemma ValidString_TrimSuffix_Ext:
  assumes "ValidString n"
  shows "ValidString (TrimSuffix n (Ext n))"
proof -
  have n: "n = TrimSuffix n (Ext n) @ Ext n"
    by (simp add: TrimSuffix_Ext)
  show ?thesis
  proof (cases "Ext n")
    case Nil
    then show ?thesis using n assms by simp
  next
    case (Cons c x)
    then have "c = CHR ''.''"
      using Ext_shape [of n] by simp
    then have "(of_char c :: nat) < 0x80"
      by simp
    moreover have "ValidString (TrimSuffix n (Ext n) @ c # x)"
      using assms n Cons by simp
    ultimately show ?thesis
      by (rule ValidString_before_ascii [rotated])
  qed
qed

text \<open>
  The loop appends one object for each listed entry, in order; read as the client reads
  it, the object is the record of that entry and is derived from its name.
\<close>

lemma image_object_record:
  assumes "os_Stat ev (Join ''./uploads'' (Name file)) = Inr info"
  shows "record_of ev file
     (marshal (JObject [(''name'', JString (Name file)),
                        (''size'', JNumber (Size info)),
                        (''upload_time'', JNumber (ModTime info)),
                        (''title'', JString (TrimSuffix (Name file) (Ext (Name file)))),
                        (''description'', JString ''Uploaded image''),
                        (''url'', JString (''http://localhost:5174/uploads/'' @ Name file))]))"
  using assms by (simp add: record_of_def toValidUTF8_constants)

lemma image_object_derived:
  "derived_record file
     (marshal (JObject [(''name'', JString (Name file)),
                        (''size'', JNumber sz),
                        (''upload_time'', JNumber mt),
                        (''title'', JString (TrimSuffix (Name file) (Ext (Name file)))),
                        (''description'', JString ''Uploaded image''),
                        (''url'', JString u)]))"
  by (simp add: derived_record_def toValidUTF8_constants ValidString_toValidUTF8
        ValidString_TrimSuffix_Ext TrimSuffix_Ext)

lemma imagesLoop_records:
  "\<exists>new. fst (imagesLoop ev files images s) = images @ new
     \<and> list_all2 (\<lambda>f img. record_of ev f (marshal img) \<and> derived_record f (marshal img))
          (filter (listed ev) files) new"
proof (induction files arbitrary: images s)
  case Nil
  then show ?case by simp
next
  case (Cons f files)
  show ?case
  proof (cases "IsDir f")
    case True
    then show ?thesis
      using Cons.IH [of images s] by (simp add: listed_def)
  next
    case False
    show ?thesis
    proof (cases "os_Stat ev (Join ''./uploads'' (Name f))")
      case (Inl e)
      then show ?thesis
        using False Cons.IH [of images "Printf ''Error getting file info: %v'' [E e] s"]
        by (simp add: listed_def)
    next
      case (Inr info)
      define obj where "obj = JObject [(''name'', JString (Name f)),
                        (''size'', JNumber (Size info)),
                        (''upload_time'', JNumber (ModTime info)),
                        (''title'', JString (TrimSuffix (Name f) (Ext (Name f)))),
                        (''description'', JString ''Uploaded image''),
                        (''url'', JString (''http://localhost:5174/uploads/'' @ Name f))]"
      have o: "record_of ev f (marshal obj) \<and> derived_record f (marshal obj)"
        unfolding obj_def using image_object_record [OF Inr] image_object_derived by blast
      have l: "listed ev f"
        using False Inr by (simp add: listed_def)
      obtain new where new: "fst (imagesLoop ev files (images @ [obj]) s) = (images @ [obj]) @ new"
        "list_all2 (\<lambda>f img. record_of ev f (marshal img) \<and> derived_record f (marshal img))
           (filter (listed ev) files) new"
        using Cons.IH [of "images @ [obj]" s] by blast
      have "fst (imagesLoop ev (f # files) images s) = images @ (obj # new)"
        using False Inr new(1) by (simp add: obj_def)
      moreover have "list_all2 (\<lambda>f img. record_of ev f (marshal img) \<and> derived_record f (marshal img))
           (filter (listed ev) (f # files)) (obj # new)"
        using l o new(2) by simp
      ultimately show ?thesis by blast
    qed
  qed
qed

lemma getImageList_ok:
  "os_ReadDir ev = Inr files \<Longrightarrow>
   fst (getImageList ev s) =
     \<lparr>status = 200, body = JArray (map marshal (fst (imagesLoop ev files [] s)))\<rparr>"
  by (auto simp: getImageList_def JSON_def split: prod.splits)

lemma getImageList_records:
  assumes "os_ReadDir ev = Inr files"
  shows "\<exists>images. fst (getImageList ev s) = \<lparr>status = 200, body = JArray images\<rparr>
     \<and> list_all2 (\<lambda>f img. record_of ev f img \<and> derived_record f img)
          (filter (listed ev) files) images"
proof -
  obtain new where "fst (imagesLoop ev files [] s) = new"
    and "list_all2 (\<lambda>f img. record_of ev f (marshal img) \<and> derived_record f (marshal img))
           (filter (listed ev) files) new"
    using imagesLoop_records [of ev files "[]" s] by auto
  then show ?thesis
    using getImageList_ok [OF assms, of s] by (auto simp: list_all2_map2)
qed

lemma imagesLoop_ReadDir_irrelevant:
  "imagesLoop (ev\<lparr>os_ReadDir := r\<rparr>) files images s = imagesLoop ev files images s"
  by (induction files arbitrary: images s) (auto split: sum.splits)

lemma imagesLoop_skip:
  assumes "\<not> IsDir file" and "os_Stat ev (Join ''./uploads'' (Name file)) = Inl e"
  shows "fst (imagesLoop ev (before @ file # after) images s) = fst (imagesLoop ev (before @ after) images s)"
proof -
  have "fst (imagesLoop ev (file # after) images' s) = fst (imagesLoop ev after images' s)" for images'
    using assms imagesLoop_state_irrelevant by simp
  then show ?thesis
    by (simp add: imagesLoop_append)
qed

lemma example_paths:
  "Join ''./uploads'' ''1700000000_My_Photo!.png'' = ''uploads/1700000000_My_Photo!.png''"
  "Join ''./uploads'' ''dangling'' = ''uploads/dangling''"
  by (simp_all add: Join_uploads)

lemma example_title:
  "TrimSuffix ''1700000000_My_Photo!.png'' (Ext ''1700000000_My_Photo!.png'') = ''1700000000_My_Photo!''"
  by code_simp

lemma example_listing:
  "fst (getImageList example_env example_state) =
     \<lparr>status = 200,
      body = JArray [JObject [(''name'', JString ''1700000000_My_Photo!.png''),
                              (''size'', JNumber 8),
                              (''upload_time'', JNumber 1700000000),
                              (''title'', JString ''1700000000_My_Photo!''),
                              (''description'', JString ''Uploaded image''),
                              (''url'', JString ''http://localhost:5174/uploads/1700000000_My_Photo!.png'')]]\<rparr>"
  by (simp add: getImageList_def example_env_def example_paths example_title JSON_def
        toValidUTF8_ascii)

text \<open>
  Claim C6 says that the listing has a record for each non-directory entry, for every state
  of the directory. In the example directory the entry \<open>dangling\<close> is not a directory,
  its \<open>os.Stat\<close> fails, and the listing holds the record of the uploaded image only.
\<close>

theorem listing_record_for_every_file_counterexample:
  "os_ReadDir example_env = Inr [\<lparr>Name = ''1700000000_My_Photo!.png'', IsDir = False\<rparr>,
                                 \<lparr>Name = ''dangling'', IsDir = False\<rparr>,
                                 \<lparr>Name = ''thumbs'', IsDir = True\<rparr>]
   \<and> \<not> IsDir \<lparr>Name = ''dangling'', IsDir = False\<rparr>
   \<and> fst (getImageList example_env example_state) =
     \<lparr>status = 200,
      body = JArray [JObject [(''name'', JString ''1700000000_My_Photo!.png''),
                              (''size'', JNumber 8),
                              (''upload_time'', JNumber 1700000000),
                              (''title'', JString ''1700000000_My_Photo!''),
                              (''description'', JString ''Uploaded image''),
                              (''url'', JString ''http://localhost:5174/uploads/1700000000_My_Photo!.png'')]]\<rparr>"
  by (simp add: example_listing) (simp add: example_env_def)

text \<open>
  Claim C6, amended. For every state of the storage directory that can be enumerated, the
  listing holds one record, in directory order, for each non-directory entry whose
  metadata can be read. The description of each record is the constant "Uploaded image"
  and, for a file name that is valid UTF-8, its title is the file name with its extension
  (\<open>filepath.Ext\<close> of the name) stripped. The handler reads the directory and nothing
  else, so no title or description submitted at upload can show.
\<close>

theorem listing_records_derived_from_names:
  assumes "os_ReadDir ev = Inr files"
  shows "\<exists>images. fst (getImageList ev s) = \<lparr>status = 200, body = JArray images\<rparr>
     \<and> list_all2 derived_record (filter (listed ev) files) images"
proof -
  obtain images where "fst (getImageList ev s) = \<lparr>status = 200, body = JArray images\<rparr>"
    and "list_all2 (\<lambda>f img. record_of ev f img \<and> derived_record f img) (filter (listed ev) files) images"
    using getImageList_records [OF assms, of s] by blast
  then show ?thesis
    by (auto elim: list_all2_mono)
qed

lemma example_listed:
  "filter (listed example_env)
     [\<lparr>Name = ''1700000000_My_Photo!.png'', IsDir = False\<rparr>,
      \<lparr>Name = ''dangling'', IsDir = False\<rparr>,
      \<lparr>Name = ''thumbs'', IsDir = True\<rparr>] = [\<lparr>Name = ''1700000000_My_Photo!.png'', IsDir = False\<rparr>]"
  by (simp add: listed_def example_paths) (simp add: example_env_def)

lemma example_ReadDir:
  "os_ReadDir example_env = Inr [\<lparr>Name = ''1700000000_My_Photo!.png'', IsDir = False\<rparr>,
      \<lparr>Name = ''dangling'', IsDir = False\<rparr>, \<lparr>Name = ''thumbs'', IsDir = True\<rparr>]"
  by (simp add: example_env_def)

lemma example_Ext: "Ext ''1700000000_My_Photo!.png'' = ''.png''"
  by code_simp

theorem listing_records_derived_from_names_witness:
  "(case body (fst (getImageList example_env example_state)) of
      JArray [img] \<Rightarrow>
        field ''description'' img = Some (JString ''Uploaded image'')
        \<and> field ''name'' img = Some (JString ''1700000000_My_Photo!.png'')
        \<and> field ''title'' img = Some (JString ''1700000000_My_Photo!'')
    | _ \<Rightarrow> False)"
proof -
  let ?png = "\<lparr>Name = ''1700000000_My_Photo!.png'', IsDir = False\<rparr>"
  from listing_records_derived_from_names [OF example_ReadDir, of example_state]
  obtain images where b: "fst (getImageList example_env example_state) = \<lparr>status = 200, body = JArray images\<rparr>"
    and l: "list_all2 derived_record [?png] images"
    unfolding example_listed by blast
  from l obtain img where i: "images = [img]" and d: "derived_record ?png img"
    by (auto simp: list_all2_Cons1)
  have v: "ValidString (Name ?png)"
    by (rule ValidString_ascii) simp
  from d v have f: "field ''description'' img = Some (JString ''Uploaded image'')"
    "field ''name'' img = Some (JString ''1700000000_My_Photo!.png'')"
    by (simp_all add: derived_record_def)
  from d v obtain t where t: "field ''title'' img = Some (JString t)"
    "''1700000000_My_Photo!.png'' = t @ Ext ''1700000000_My_Photo!.png''"
    by (auto simp: derived_record_def split: option.splits json.splits)
  from t(2) have "t = ''1700000000_My_Photo!''"
    unfolding example_Ext by simp
  with b i f t(1) show ?thesis
    by simp
qed

text \<open>
  Claim C7. Listing an empty storage directory answers 200 with the empty JSON array and
  changes nothing. The answer is the 500 response "Failed to read uploads directory"
  exactly when the directory cannot be enumerated; whenever it can, the status is 200.
\<close>

theorem listing_empty_and_failure:
  "(os_ReadDir ev = Inr [] \<longrightarrow> getImageList ev s = (\<lparr>status = 200, body = JArray []\<rparr>, s))
   \<and> (fst (getImageList ev s) =
        \<lparr>status = 500, body = JObject [(''error'', JString ''Failed to read uploads directory''),
                                       (''success'', JBool False)]\<rparr>
      \<longleftrightarrow> (\<exists>e. os_ReadDir ev = Inl e))
   \<and> (status (fst (getImageList ev s)) = 200 \<longleftrightarrow> (\<exists>files. os_ReadDir ev = Inr files))"
proof (cases "os_ReadDir ev")
  case (Inl e)
  then show ?thesis
    by (simp add: getImageList_def Status_JSON_def toValidUTF8_constants)
next
  case (Inr files)
  then show ?thesis
    using getImageList_ok [OF Inr, of s]
    by (auto simp: getImageList_def JSON_def)
qed

theorem listing_empty_and_failure_witness:
  "getImageList (example_env\<lparr>os_ReadDir := Inr []\<rparr>) example_state =
     (\<lparr>status = 200, body = JArray []\<rparr>, example_state)
   \<and> fst (getImageList (example_env\<lparr>os_ReadDir := Inl ReadDirError\<rparr>) example_state) =
     \<lparr>status = 500, body = JObject [(''error'', JString ''Failed to read uploads directory''),
                                    (''success'', JBool False)]\<rparr>
   \<and> status (fst (getImageList example_env example_state)) = 200"
  using listing_empty_and_failure [of "example_env\<lparr>os_ReadDir := Inr []\<rparr>" example_state]
    listing_empty_and_failure [of "example_env\<lparr>os_ReadDir := Inl ReadDirError\<rparr>" example_state]
    listing_empty_and_failure [of example_env example_state]
  by (simp add: example_env_def)

text \<open>
  Claim C9. When the directory is enumerated and \<open>os.Stat\<close> fails on one non-directory
  entry, the answer is still 200, and its body holds exactly the records of the remaining
  entries that are listed (name, size, modification time, address, derived title and
  description of each, in directory order): it is the answer the handler gives for the
  directory without that entry. The failure is logged on the server and never shows in the response.
\<close>

theorem listing_skips_entry_without_metadata:
  assumes "os_ReadDir ev = Inr (before @ file # after)"
    and "\<not> IsDir file"
    and "os_Stat ev (Join ''./uploads'' (Name file)) = Inl e"
  shows "\<exists>images. fst (getImageList ev s) = \<lparr>status = 200, body = JArray images\<rparr>
     \<and> list_all2 (\<lambda>f img. record_of ev f img \<and> derived_record f img)
          (filter (listed ev) (before @ after)) images
     \<and> fst (getImageList ev s) = fst (getImageList (ev\<lparr>os_ReadDir := Inr (before @ after)\<rparr>) s)"
proof -
  have n: "\<not> listed ev file"
    using assms(3) by (simp add: listed_def)
  obtain images where b: "fst (getImageList ev s) = \<lparr>status = 200, body = JArray images\<rparr>"
    and "list_all2 (\<lambda>f img. record_of ev f img \<and> derived_record f img)
           (filter (listed ev) (before @ file # after)) images"
    using getImageList_records [OF assms(1), of s] by blast
  then have r: "list_all2 (\<lambda>f img. record_of ev f img \<and> derived_record f img)
      (filter (listed ev) (before @ after)) images"
    using n by simp
  have "os_ReadDir (ev\<lparr>os_ReadDir := Inr (before @ after)\<rparr>) = Inr (before @ after)"
    by simp
  from getImageList_ok [OF assms(1), of s] getImageList_ok [OF this, of s]
  have "fst (getImageList ev s) = fst (getImageList (ev\<lparr>os_ReadDir := Inr (before @ after)\<rparr>) s)"
    by (simp add: imagesLoop_ReadDir_irrelevant imagesLoop_skip [OF assms(2,3)])
  with b r show ?thesis by blast
qed

theorem listing_skips_entry_without_metadata_witness:
  "os_ReadDir example_env =
     Inr ([\<lparr>Name = ''1700000000_My_Photo!.png'', IsDir = False\<rparr>]
          @ \<lparr>Name = ''dangling'', IsDir = False\<rparr> # [\<lparr>Name = ''thumbs'', IsDir = True\<rparr>])
   \<and> \<not> IsDir \<lparr>Name = ''dangling'', IsDir = False\<rparr>
   \<and> os_Stat example_env (Join ''./uploads'' (Name \<lparr>Name = ''dangling'', IsDir = False\<rparr>)) = Inl StatError
   \<and> status (fst (getImageList example_env example_state)) = 200
   \<and> (case body (fst (getImageList example_env example_state)) of
        JArray [img] \<Rightarrow>
          field ''name'' img = Some (JString ''1700000000_My_Photo!.png'')
          \<and> field ''size'' img = Some (JNumber 8)
          \<and> field ''upload_time'' img = Some (JNumber 1700000000)
      | _ \<Rightarrow> False)"
proof -
  let ?png = "\<lparr>Name = ''1700000000_My_Photo!.png'', IsDir = False\<rparr>"
  let ?dangling = "\<lparr>Name = ''dangling'', IsDir = False\<rparr>"
  let ?thumbs = "\<lparr>Name = ''thumbs'', IsDir = True\<rparr>"
  have h1: "os_ReadDir example_env = Inr ([?png] @ ?dangling # [?thumbs])"
    by (simp add: example_env_def)
  have h2: "\<not> IsDir ?dangling"
    by simp
  have h3: "os_Stat example_env (Join ''./uploads'' (Name ?dangling)) = Inl StatError"
    by (simp add: example_paths) (simp add: example_env_def)
  have fl: "filter (listed example_env) ([?png] @ [?thumbs]) = [?png]"
    by (simp add: listed_def example_paths) (simp add: example_env_def)
  from listing_skips_entry_without_metadata [OF h1 h2 h3, of example_state]
  obtain images where b: "fst (getImageList example_env example_state) = \<lparr>status = 200, body = JArray images\<rparr>"
    and l: "list_all2 (\<lambda>f img. record_of example_env f img \<and> derived_record f img) [?png] images"
    unfolding fl by blast
  from l obtain img where i: "images = [img]" and r: "record_of example_env ?png img"
    by (auto simp: list_all2_Cons1)
  have st: "os_Stat example_env (Join ''./uploads'' (Name ?png)) = Inr \<lparr>Size = 8, ModTime = 1700000000\<rparr>"
    by (simp add: example_paths) (simp add: example_env_def)
  have u: "toValidUTF8 ''1700000000_My_Photo!.png'' = ''1700000000_My_Photo!.png''"
    by (rule toValidUTF8_ascii) simp
  from r have "field ''name'' img = Some (JString ''1700000000_My_Photo!.png'')
      \<and> field ''size'' img = Some (JNumber 8)
      \<and> field ''upload_time'' img = Some (JNumber 1700000000)"
    unfolding record_of_def st using u by simp
  with b i h1 h2 h3 show ?thesis
    by simp
qed

end
